theory Spec2Isabelle
  imports Main "HOL-Library.Sublist"
begin

section \<open>JavaScript values\<close>

text \<open>
  A JavaScript string is a sequence of UTF-16 code units; \<open>charCodeAt\<close> reads one of
  them. The literals of the source that are plain ASCII are written with \<open>u\<close>; the others
  are spelled out as code units.
\<close>

type_synonym jsstring = "nat list"

definition u :: "string \<Rightarrow> jsstring" where
  "u s = map of_char s"

text \<open>
  The fields of the loosely typed payloads are read with optional chaining, so a field is
  \<open>undefined\<close> (absent at any level), \<open>null\<close>, or a string.
\<close>

datatype jsval = Undefined | Null | Str jsstring

fun truthy :: "jsval \<Rightarrow> bool" where
  "truthy (Str s) = (s \<noteq> [])"
| "truthy _ = False"

text \<open>\<open>a || b\<close>\<close>

definition js_or :: "jsval \<Rightarrow> jsval \<Rightarrow> jsval" where
  "js_or a b = (if truthy a then a else b)"

text \<open>What a template literal \<open>`${v}`\<close> renders.\<close>

fun toStr :: "jsval \<Rightarrow> jsstring" where
  "toStr Undefined = u ''undefined''"
| "toStr Null = u ''null''"
| "toStr (Str s) = s"

text \<open>\<open>Number.prototype.toString\<close> on an integer.\<close>

fun digits :: "nat \<Rightarrow> jsstring" where
  "digits n = (if n < 10 then [48 + n] else digits (n div 10) @ [48 + n mod 10])"

declare digits.simps [simp del]

definition int_toString :: "int \<Rightarrow> jsstring" where
  "int_toString i = (if i < 0 then 45 # digits (nat (- i)) else digits (nat i))"

subsection \<open>Set and Map\<close>

text \<open>
  A JavaScript \<open>Set\<close> keeps its members in insertion order without repetition, a
  \<open>Map\<close> its entries in the insertion order of their keys; \<open>Array.from\<close> reads them in
  that order.
\<close>

definition set_add :: "'a \<Rightarrow> 'a list \<Rightarrow> 'a list" where
  "set_add x xs = (if x \<in> set xs then xs else xs @ [x])"

definition set_delete :: "'a \<Rightarrow> 'a list \<Rightarrow> 'a list" where
  "set_delete x xs = filter (\<lambda>y. y \<noteq> x) xs"

definition map_has :: "('k \<times> 'v) list \<Rightarrow> 'k \<Rightarrow> bool" where
  "map_has m k = (k \<in> fst ` set m)"

definition map_get :: "('k \<times> 'v) list \<Rightarrow> 'k \<Rightarrow> 'v option" where
  "map_get m k = map_of m k"

fun map_set :: "'k \<Rightarrow> 'v \<Rightarrow> ('k \<times> 'v) list \<Rightarrow> ('k \<times> 'v) list" where
  "map_set k v [] = [(k, v)]"
| "map_set k v (p # ps) = (if fst p = k then (k, v) # ps else p # map_set k v ps)"

text \<open>\<open>xs.slice(-n)\<close>\<close>

definition slice_last :: "nat \<Rightarrow> 'a list \<Rightarrow> 'a list" where
  "slice_last n xs = drop (length xs - n) xs"

subsection \<open>What the platform computes\<close>

text \<open>
  Case mapping and the rendering of dates come from the JavaScript runtime, its locale data
  and the time zone of the host, not from this program; they are parameters of the model.
  \<open>localeDate s\<close> is \<open>new Date(s).toLocaleDateString()\<close>, \<open>fmtCreated\<close>, \<open>fmtStamp\<close> and
  \<open>fmtDay\<close> are \<open>toLocaleString\<close>/\<open>toLocaleDateString\<close> for \<open>en-US\<close> with the three option
  sets the program uses (long month with time, short month with time, long month date
  only), applied to a time value.
\<close>

record platform =
  toLowerCase :: "jsstring \<Rightarrow> jsstring"
  localeDate :: "jsstring \<Rightarrow> jsstring"
  fmtCreated :: "int \<Rightarrow> jsstring"
  fmtStamp :: "int \<Rightarrow> jsstring"
  fmtDay :: "int \<Rightarrow> jsstring"

section \<open>Change actions and their notifications (trello-poller)\<close>

text \<open>
  A board action as the poller reads it. \<open>adate\<close> is the time value (milliseconds) of
  \<open>new Date(action.date)\<close>; the board sends ISO dates, so it is a number. The other fields are
  the paths under \<open>action.data\<close> that the poller reads; \<open>listBefore\<close> and \<open>listAfter\<close> are
  objects, present or not, holding a name.
\<close>

record action =
  aid :: jsstring
  atype :: jsstring
  adate :: int
  card_id :: jsval
  card_name :: jsval
  card_due :: jsval
  label_name :: jsval
  label_color :: jsval
  checklist_name :: jsval
  checkItem_name :: jsval
  checkItem_state :: jsval
  old_due :: jsval
  old_name :: jsval
  listBefore :: "jsval option"
  listAfter :: "jsval option"
  list_name :: jsval

text \<open>
  An embed as far as the content hash reads it, extended once to the payload that
  \<open>formatNotificationEmbed\<close> returns (its \<open>fields\<close> are always empty, its \<open>timestamp\<close> is the
  ISO rendering of the action's date, kept as the time value) and once to the embed of a
  thread message.
\<close>

record embed_text =
  title :: jsval
  description :: jsval

record notification = embed_text +
  color :: nat
  footer_text :: jsstring
  footer_icon_url :: jsstring
  timestamp :: int

type_synonym env = "jsstring \<Rightarrow> jsstring option"

definition flag_on :: "env \<Rightarrow> string \<Rightarrow> bool" where
  "flag_on env name = (env (u name) = Some (u ''true''))"

definition mk_notification :: "jsstring \<Rightarrow> jsstring \<Rightarrow> nat \<Rightarrow> action \<Rightarrow> notification" where
  "mk_notification t d c a =
     \<lparr>title = Str t, description = Str d, color = c, footer_text = u ''Trello'',
      footer_icon_url = u ''https://cdn.iconscout.com/icon/free/png-256/trello-226529.png'',
      timestamp = adate a\<rparr>"

definition emoji_label :: jsstring where "emoji_label = [0xD83C, 0xDFF7, 0xFE0F]"
definition emoji_checklist :: jsstring where "emoji_checklist = [0xD83D, 0xDCCB]"
definition emoji_done :: jsstring where "emoji_done = [0x2705]"
definition emoji_open :: jsstring where "emoji_open = [0x2B1C]"
definition emoji_member :: jsstring where "emoji_member = [0xD83D, 0xDC64]"
definition emoji_due :: jsstring where "emoji_due = [0xD83D, 0xDCC5]"
definition emoji_rename :: jsstring where "emoji_rename = [0x270F, 0xFE0F]"
definition emoji_move :: jsstring where "emoji_move = [0xD83D, 0xDD04]"
definition emoji_comment :: jsstring where "emoji_comment = [0xD83D, 0xDCAC]"

text \<open>
  The \<open>updateCard\<close> case assigns title, description and colour in three successive blocks,
  a later one overwriting an earlier one. The unused local \<open>timestamp\<close>
  of the source is left out.
\<close>

definition updateCard_due ::
  "platform \<Rightarrow> action \<Rightarrow> (jsstring \<times> jsstring \<times> nat) option" where
  "updateCard_due pf a =
     (let oldDue = old_due a; newDue = card_due a in
      if \<not> truthy oldDue \<and> truthy newDue then
        Some (emoji_due @ u '' Due Date Set'',
              u ''Due date was set to **'' @ localeDate pf (toStr newDue) @ u ''**'', 0xF2D600)
      else if truthy oldDue \<and> \<not> truthy newDue then
        Some (emoji_due @ u '' Due Date Removed'', u ''Due date was removed from the card'',
              0xEB5A46)
      else if truthy oldDue \<and> truthy newDue \<and> oldDue \<noteq> newDue then
        Some (emoji_due @ u '' Due Date Changed'',
              u ''Due date was updated to **'' @ localeDate pf (toStr newDue) @ u ''**'', 0x0079BF)
      else None)"

definition updateCard_name ::
  "action \<Rightarrow> (jsstring \<times> jsstring \<times> nat) option \<Rightarrow> (jsstring \<times> jsstring \<times> nat) option" where
  "updateCard_name a r =
     (if old_name a \<noteq> Undefined then
        Some (emoji_rename @ u '' Card Renamed'',
              u ''Card was renamed from **'' @ toStr (old_name a) @ u ''**'', 0x0079BF)
      else r)"

definition updateCard_move ::
  "action \<Rightarrow> (jsstring \<times> jsstring \<times> nat) option \<Rightarrow> (jsstring \<times> jsstring \<times> nat) option" where
  "updateCard_move a r =
     (case (listBefore a, listAfter a) of
        (Some fromList, Some toList) \<Rightarrow>
          Some (emoji_move @ u '' Card Moved'',
                u ''Card was moved from **'' @ toStr fromList @ u ''** to **'' @ toStr toList
                  @ u ''**'', 0x9F19CC)
      | _ \<Rightarrow> r)"

text \<open>
  Inside the \<open>switch\<close> a case either returns \<open>null\<close> at once (its flag is off, or the
  type is not recognised) or leaves title, description and colour assigned or not.
\<close>

datatype switch_result = ReturnNull | Assigned "(jsstring \<times> jsstring \<times> nat) option"

definition switch_type :: "env \<Rightarrow> platform \<Rightarrow> action \<Rightarrow> switch_result" where
  "switch_type env pf a =
    (if atype a = u ''addLabelToCard'' then
       if \<not> flag_on env ''NOTIFY_LABEL_CHANGES'' then ReturnNull
       else Assigned (Some (emoji_label @ u '' Label Added'',
         u ''Label **''
            @ toStr (js_or (js_or (label_name a) (label_color a)) (Str (u ''Unknown Label'')))
            @ u ''** was added to the card'', 0x61BD4F))
     else if atype a = u ''removeLabelFromCard'' then
       if \<not> flag_on env ''NOTIFY_LABEL_CHANGES'' then ReturnNull
       else Assigned (Some (emoji_label @ u '' Label Removed'',
         u ''Label **''
            @ toStr (js_or (js_or (label_name a) (label_color a)) (Str (u ''Unknown Label'')))
            @ u ''** was removed from the card'', 0xEB5A46))
     else if atype a = u ''addChecklistToCard'' then
       if \<not> flag_on env ''NOTIFY_CHECKLIST_CHANGES'' then ReturnNull
       else Assigned (Some (emoji_checklist @ u '' Checklist Added'',
         u ''Checklist **''
            @ toStr (js_or (checklist_name a) (Str (u ''Unknown Checklist'')))
            @ u ''** was added to the card'', 0x0079BF))
     else if atype a = u ''updateCheckItemStateOnCard'' then
       if \<not> flag_on env ''NOTIFY_CHECKLIST_CHANGES'' then ReturnNull
       else
         let checkItem = toStr (js_or (checkItem_name a) (Str (u ''Unknown Item'')));
             complete = (checkItem_state a = Str (u ''complete''));
             state = (if complete then u ''completed'' else u ''marked incomplete'');
             stateEmoji = (if complete then emoji_done else emoji_open)
         in Assigned (Some
              (stateEmoji @ u '' Checklist Item ''
                 @ (if state = u ''completed'' then u ''Completed'' else u ''Updated''),
               u ''Checklist item **'' @ checkItem @ u ''** was '' @ state,
               if complete then 0x61BD4F else 0xF2D600))
     else if atype a = u ''addMemberToCard'' then
       if \<not> flag_on env ''NOTIFY_MEMBER_CHANGES'' then ReturnNull
       else Assigned (Some (emoji_member @ u '' Member Assigned'',
         u ''A team member was assigned to this card'', 0x9F19CC))
     else if atype a = u ''removeMemberFromCard'' then
       if \<not> flag_on env ''NOTIFY_MEMBER_CHANGES'' then ReturnNull
       else Assigned (Some (emoji_member @ u '' Member Unassigned'',
         u ''A team member was unassigned from this card'', 0xC377E0))
     else if atype a = u ''updateCard'' then
       if old_due a \<noteq> Undefined \<or> card_due a \<noteq> Undefined then
         if \<not> flag_on env ''NOTIFY_DUE_DATE_CHANGES'' then ReturnNull
         else Assigned (updateCard_move a (updateCard_name a (updateCard_due pf a)))
       else Assigned (updateCard_move a (updateCard_name a None))
     else if atype a = u ''commentCard'' then
       if \<not> flag_on env ''NOTIFY_COMMENT_CHANGES'' then ReturnNull
       else Assigned (Some (emoji_comment @ u '' New Comment'',
         u ''A new comment was added to the card'', 0x0079BF))
     else if atype a = u ''moveCardToBoard'' \<or> atype a = u ''moveCardFromBoard'' then
       Assigned (Some (emoji_move @ u '' Card Moved'',
         u ''Card was moved to **''
            @ toStr (js_or (js_or (list_name a)
                 (case listAfter a of None \<Rightarrow> Undefined | Some n \<Rightarrow> n))
                 (Str (u ''Unknown List'')))
            @ u ''**'', 0x9F19CC))
     else ReturnNull)"

definition formatNotificationEmbed :: "env \<Rightarrow> platform \<Rightarrow> action \<Rightarrow> notification option" where
  "formatNotificationEmbed env pf a =
     (case switch_type env pf a of
        ReturnNull \<Rightarrow> None
      | Assigned None \<Rightarrow> None
      | Assigned (Some (t, d, c)) \<Rightarrow> if t = [] then None else Some (mk_notification t d c a))"

subsection \<open>The content hash\<close>

text \<open>
  \<open>hash = ((hash << 5) - hash) + char; hash = hash & hash\<close>: the shift and the \<open>&\<close>
  both convert their operand to a signed 32-bit integer (\<open>ToInt32\<close>), the subtraction and
  the addition between them are exact.
\<close>

definition to_int32 :: "int \<Rightarrow> int" where
  "to_int32 x = (let m = x mod 4294967296 in if m \<ge> 2147483648 then m - 4294967296 else m)"

definition hash_step :: "nat \<Rightarrow> int \<Rightarrow> int" where
  "hash_step c h = to_int32 ((to_int32 (h * 32) - h) + int c)"

definition simpleHash :: "jsstring \<Rightarrow> jsstring" where
  "simpleHash str = int_toString (fold hash_step str 0)"

definition createContentHash :: "'a embed_text_scheme \<Rightarrow> jsstring" where
  "createContentHash e = simpleHash (toStr (title e) @ u '':'' @ toStr (description e))"

section \<open>The thread system as the program sees it\<close>

text \<open>
  A thread message with the fields the program reads. \<open>e_image\<close> and \<open>e_video\<close> are
  the embed's image and video objects (present or not) with their url; \<open>footer\<close> is
  \<open>embed.footer?.text\<close>.
\<close>

record attachment =
  att_url :: jsstring
  att_name :: jsstring
  att_contentType :: jsval

record msg_embed = embed_text +
  url :: jsval
  etype :: jsval
  e_image :: "jsval option"
  e_video :: "jsval option"
  footer :: jsval

record message =
  mid :: jsstring
  author_username :: jsstring
  author_bot :: bool
  content :: jsstring
  attachments :: "attachment list"
  embeds :: "msg_embed list"
  createdTimestamp :: int

text \<open>
  The channels of the thread system: the messages of a thread, newest first (the order in
  which \<open>messages.fetch\<close> returns them), or \<open>None\<close> for a thread that
  \<open>channels.fetch\<close> does not deliver (it throws or answers nothing).
\<close>

type_synonym discord = "jsstring \<Rightarrow> message list option"

text \<open>
  The message that \<open>thread.send({embeds: [embed]})\<close> leaves in the thread: written by the
  bot, one embed with the title, description and footer sent. The id, author name and time
  that the thread system gives it are never read for a bot message.
\<close>

definition as_msg_embed :: "notification \<Rightarrow> msg_embed" where
  "as_msg_embed n =
     \<lparr>title = title n, description = description n, url = Undefined, etype = Str (u ''rich''),
      e_image = None, e_video = None, footer = Str (footer_text n)\<rparr>"

definition posted :: "notification \<Rightarrow> message" where
  "posted n =
     \<lparr>mid = [], author_username = [], author_bot = True, content = [], attachments = [],
      embeds = [as_msg_embed n], createdTimestamp = timestamp n\<rparr>"

section \<open>The bot's registry\<close>

record bot =
  threadCardMap :: "(jsstring \<times> jsstring) list"
  cardThreadMap :: "(jsstring \<times> jsstring) list"
  processingThreads :: "jsstring list"

definition new_bot :: bot where
  "new_bot = \<lparr>threadCardMap = [], cardThreadMap = [], processingThreads = []\<rparr>"

definition findThreadByCardId :: "bot \<Rightarrow> jsstring \<Rightarrow> jsstring option" where
  "findThreadByCardId b cardId = map_get (cardThreadMap b) cardId"

section \<open>The poller\<close>

record poller =
  intervalSeconds :: nat
  lastCheckTime :: int
  pollingInterval :: "nat option"
  isPolling :: bool
  consecutiveErrors :: nat
  maxConsecutiveErrors :: nat
  processedActions :: "jsstring list"
  sentNotifications :: "(jsstring \<times> jsstring list) list"

text \<open>
  \<open>pollingInterval\<close> is the timer: \<open>None\<close> for \<open>null\<close>, else the period in seconds with
  which \<open>setInterval\<close> was last called.
\<close>

definition new_poller :: "nat \<Rightarrow> int \<Rightarrow> poller" where
  "new_poller interval now =
     \<lparr>intervalSeconds = interval, lastCheckTime = now, pollingInterval = None,
      isPolling = False, consecutiveErrors = 0, maxConsecutiveErrors = 5,
      processedActions = [], sentNotifications = []\<rparr>"

text \<open>One send to a thread, kept in the order in which the sends happen.\<close>

record delivery =
  d_thread :: jsstring
  d_card :: jsstring
  d_action :: action
  d_embed :: notification

definition hashes_of :: "(jsstring \<times> jsstring list) list \<Rightarrow> jsstring \<Rightarrow> jsstring list" where
  "hashes_of sn cardId = (case map_get sn cardId of None \<Rightarrow> [] | Some hs \<Rightarrow> hs)"

text \<open>
  \<open>if (!has(cardId)) set(cardId, new Set()); get(cardId).add(hash)\<close>
\<close>

definition cache_add ::
  "jsstring \<Rightarrow> jsstring \<Rightarrow> (jsstring \<times> jsstring list) list \<Rightarrow> (jsstring \<times> jsstring list) list" where
  "cache_add cardId h sn =
     (let sn1 = (if \<not> map_has sn cardId then map_set cardId [] sn else sn)
      in map_set cardId (set_add h (hashes_of sn1 cardId)) sn1)"

type_synonym pstate = "poller \<times> discord \<times> delivery list"

text \<open>
  \<open>processAction\<close>. \<open>sendOk a\<close> tells whether \<open>thread.send\<close> succeeds for the notification
  of \<open>a\<close>; when it throws, the \<open>catch\<close> returns \<open>false\<close> with nothing recorded.
\<close>

definition processAction ::
  "env \<Rightarrow> platform \<Rightarrow> bot \<Rightarrow> (action \<Rightarrow> bool) \<Rightarrow> action \<Rightarrow> pstate \<Rightarrow> bool \<times> pstate" where
  "processAction env pf b sendOk a s =
    (case s of (p, ch, dlog) \<Rightarrow>
      if \<not> truthy (card_id a) then (False, s)
      else
        let cardId = toStr (card_id a) in
        (case findThreadByCardId b cardId of
           None \<Rightarrow> (False, s)
         | Some threadId \<Rightarrow>
             if threadId = [] then (False, s)
             else
               (case ch threadId of
                  None \<Rightarrow> (False, s)
                | Some msgs \<Rightarrow>
                    (case formatNotificationEmbed env pf a of
                       None \<Rightarrow> (False, s)
                     | Some e \<Rightarrow>
                         if map_has (sentNotifications p) cardId
                            \<and> createContentHash e \<in> set (hashes_of (sentNotifications p) cardId)
                         then (False, s)
                         else if \<not> sendOk a then (False, s)
                         else
                           (True,
                            p\<lparr>sentNotifications :=
                                 cache_add cardId (createContentHash e) (sentNotifications p)\<rparr>,
                            ch(threadId \<mapsto> posted e # msgs),
                            dlog @ [\<lparr>d_thread = threadId, d_card = cardId, d_action = a,
                                     d_embed = e\<rparr>])))))"

definition cleanupOldData :: "poller \<Rightarrow> poller" where
  "cleanupOldData p =
     (let p1 = (if length (processedActions p) > 2000
                then p\<lparr>processedActions := slice_last 2000 (processedActions p)\<rparr> else p)
      in if length (sentNotifications p1) > 100
         then
           let cardsToKeep = slice_last 100 (map fst (sentNotifications p1))
           in p1\<lparr>sentNotifications :=
                   fold (\<lambda>cardId newCache.
                           map_set cardId (hashes_of (sentNotifications p1) cardId) newCache)
                     cardsToKeep []\<rparr>
         else p1)"

definition handlePollingError :: "poller \<Rightarrow> poller" where
  "handlePollingError p =
     (let p1 = p\<lparr>consecutiveErrors := consecutiveErrors p + 1\<rparr>
      in if consecutiveErrors p1 \<ge> maxConsecutiveErrors p1
         then p1\<lparr>pollingInterval := Some (intervalSeconds p1 * 2), consecutiveErrors := 0\<rparr>
         else p1)"

text \<open>The body of the loop over the sorted actions.\<close>

definition process_step ::
  "env \<Rightarrow> platform \<Rightarrow> bot \<Rightarrow> (action \<Rightarrow> bool) \<Rightarrow> action \<Rightarrow> pstate \<Rightarrow> pstate" where
  "process_step env pf b sendOk a s =
     (case processAction env pf b sendOk a s of
        (success, (p, ch, dlog)) \<Rightarrow>
          if success then (p\<lparr>processedActions := set_add (aid a) (processedActions p)\<rparr>, ch, dlog)
          else (p, ch, dlog))"

text \<open>
  \<open>checkForUpdates\<close>. \<open>api\<close> is what \<open>getBoardActions\<close> answers, \<open>None\<close> when it throws;
  \<open>now\<close> is the clock read by \<open>new Date()\<close>. \<open>Array.prototype.sort\<close> is stable, and the
  comparator is the difference of the two time values, so the sorted array is the stable
  sort by \<open>adate\<close>.
\<close>

definition checkForUpdates ::
  "env \<Rightarrow> platform \<Rightarrow> bot \<Rightarrow> int \<Rightarrow> action list option \<Rightarrow> (action \<Rightarrow> bool) \<Rightarrow> pstate
     \<Rightarrow> pstate" where
  "checkForUpdates env pf b now api sendOk s =
    (case s of (p, ch, dlog) \<Rightarrow>
      (case api of
         None \<Rightarrow> (handlePollingError p, ch, dlog)
       | Some actions \<Rightarrow>
           let p1 = p\<lparr>consecutiveErrors := 0\<rparr>;
               newActions = filter (\<lambda>a. aid a \<notin> set (processedActions p1)) actions
           in if newActions = [] then (p1\<lparr>lastCheckTime := now\<rparr>, ch, dlog)
              else
                let sortedActions = sort_key adate newActions
                in (case fold (process_step env pf b sendOk) sortedActions (p1, ch, dlog) of
                      (p2, ch2, dlog2) \<Rightarrow>
                        ((cleanupOldData p2)\<lparr>lastCheckTime := now\<rparr>, ch2, dlog2))))"

subsection \<open>Start-up\<close>

text \<open>
  \<open>scanThreadNotifications\<close>. \<open>fetched\<close> is what \<open>thread.messages.fetch({limit: 100})\<close>
  answers: the most recent messages of the thread, at most 100 of them, or \<open>None\<close> when it
  throws. Then the \<open>catch\<close> returns 0 and nothing is cached for the card, not even an empty
  set. Otherwise the hash of the first embed of every bot message with the \<open>Trello\<close> footer
  is added to the card's set. The count is what the source returns.
\<close>

definition is_notification :: "message \<Rightarrow> bool" where
  "is_notification msg =
     (author_bot msg \<and> (case embeds msg of [] \<Rightarrow> False | e # _ \<Rightarrow> footer e = Str (u ''Trello'')))"

definition scan_message ::
  "jsstring \<Rightarrow> message \<Rightarrow> (jsstring \<times> jsstring list) list \<Rightarrow> (jsstring \<times> jsstring list) list" where
  "scan_message cardId msg sn =
     (case embeds msg of
        [] \<Rightarrow> sn
      | e # _ \<Rightarrow> map_set cardId (set_add (createContentHash e) (hashes_of sn cardId)) sn)"

definition scanThreadNotifications ::
  "message list option \<Rightarrow> jsstring \<Rightarrow> poller \<Rightarrow> nat \<times> poller" where
  "scanThreadNotifications fetched cardId p =
     (case fetched of
        None \<Rightarrow> (0, p)
      | Some messages \<Rightarrow>
          let botMessages = filter is_notification messages;
              sn1 = (if \<not> map_has (sentNotifications p) cardId
                     then map_set cardId [] (sentNotifications p) else sentNotifications p)
          in (length botMessages,
              p\<lparr>sentNotifications := fold (scan_message cardId) botMessages sn1\<rparr>))"

text \<open>
  \<open>loadExistingNotifications\<close> copies the pairs of card and thread out of the registry when
  it is called, and then goes through them one after the other, waiting for the thread
  system twice in each round: for the thread, and in \<open>scanThreadNotifications\<close> for its
  messages. Other handlers of the process run during these waits. So the call is modelled
  by the pairs it has taken, and its loop by its rounds: \<open>scan_round\<close> is the body of the
  loop for one pair. A thread that is not found, or whose fetch throws, is passed over;
  \<open>fetchOk\<close> tells whether the fetch of the messages succeeds.
\<close>

definition fetch_recent :: "bool \<Rightarrow> message list \<Rightarrow> message list option" where
  "fetch_recent fetchOk msgs = (if fetchOk then Some (take 100 msgs) else None)"

definition loadExistingNotifications :: "bot \<Rightarrow> (jsstring \<times> jsstring) list" where
  "loadExistingNotifications b = cardThreadMap b"

definition scan_round :: "discord \<Rightarrow> bool \<Rightarrow> jsstring \<times> jsstring \<Rightarrow> poller \<Rightarrow> poller" where
  "scan_round ch fetchOk = (\<lambda>(cardId, threadId) p.
      case ch threadId of
        None \<Rightarrow> p
      | Some msgs \<Rightarrow> snd (scanThreadNotifications (fetch_recent fetchOk msgs) cardId p))"

text \<open>The hashes that one round of the scan reads in the thread.\<close>

definition scan_reads :: "discord \<Rightarrow> bool \<Rightarrow> jsstring \<times> jsstring \<Rightarrow> jsstring list" where
  "scan_reads ch fetchOk = (\<lambda>(cardId, threadId).
      case ch threadId of
        None \<Rightarrow> []
      | Some msgs \<Rightarrow>
          (case fetch_recent fetchOk msgs of
             None \<Rightarrow> []
           | Some messages \<Rightarrow>
               concat (map (\<lambda>msg. case embeds msg of [] \<Rightarrow> [] | e # _ \<Rightarrow> [createContentHash e])
                          (filter is_notification messages))))"

subsection \<open>The running process\<close>

text \<open>
  The process as a whole: the bot's registry, its poller, the threads, the pairs that the
  scan begun at the last start has still to read, and a record of what has been observed
  so far. The record is for the statements only, the code does not read it: \<open>Started\<close>
  for the start of a new process, \<open>Seen c h\<close> when the scan reads a notification with hash
  \<open>h\<close> in the thread of card \<open>c\<close>, \<open>Sent d\<close> for a notification delivered, and at the end
  of every poll tick \<open>Kept cs\<close> with the cards whose hashes the cache then holds.
\<close>

datatype observation =
    Started
  | Seen jsstring jsstring
  | Sent delivery
  | Kept "jsstring list"

record system =
  sys_bot :: bot
  sys_poller :: poller
  sys_threads :: discord
  sys_scan :: "(jsstring \<times> jsstring) list"
  sys_trace :: "observation list"

definition new_system :: "bot \<Rightarrow> nat \<Rightarrow> int \<Rightarrow> discord \<Rightarrow> system" where
  "new_system b interval now ch =
     \<lparr>sys_bot = b, sys_poller = new_poller interval now, sys_threads = ch, sys_scan = [],
      sys_trace = []\<rparr>"

text \<open>
  \<open>start\<close>. Neither \<open>loadExistingNotifications()\<close> nor the first \<open>checkForUpdates()\<close> is
  awaited: each call returns at its first wait, so \<open>start\<close> itself only sets the flag, the
  look-back of 30 minutes and the timer. The rounds of the scan and the body of the first
  check happen later, as events of the run, in whatever order the thread system and the
  board answer.
\<close>

definition start :: "int \<Rightarrow> system \<Rightarrow> system" where
  "start now s =
     (let p = sys_poller s
      in if isPolling p then s
         else s\<lparr>sys_poller := p\<lparr>isPolling := True,
                                 lastCheckTime := now - 30 * 60 * 1000,
                                 pollingInterval := Some (intervalSeconds p)\<rparr>,
                sys_scan := loadExistingNotifications (sys_bot s)\<rparr>)"

text \<open>
  What happens to the process. \<open>Tick\<close>: the body of one \<open>checkForUpdates\<close>, with the
  board's answer and the outcome of each send. \<open>ScanRound\<close>: the next round of the scan.
  \<open>Restart\<close>: the process is started anew; the registry has been built again from the
  forum (\<open>initializeExistingThreads\<close> is awaited before the poller is started) and a new
  poller object is started, while the threads keep their messages. \<open>Rebind\<close>: a trigger
  of the bot has changed the registry. \<open>Chat\<close>: somebody posts a message in a thread.
  \<open>Edit\<close>: the messages of a thread are changed in any other way, for instance by deleting
  some. Every event is taken whole: the ticks of a run do not overlap, and a round of the
  scan comes before or after a tick, not in the middle of it.
\<close>

datatype event =
    Tick int "action list option" "action \<Rightarrow> bool"
  | ScanRound bool
  | Restart bot int
  | Rebind bot
  | Chat jsstring message
  | Edit jsstring "message list"

fun step :: "env \<Rightarrow> platform \<Rightarrow> event \<Rightarrow> system \<Rightarrow> system" where
  "step env pf (Tick now api sendOk) s =
     (case checkForUpdates env pf (sys_bot s) now api sendOk (sys_poller s, sys_threads s, []) of
        (p, ch, sent) \<Rightarrow>
          s\<lparr>sys_poller := p, sys_threads := ch,
            sys_trace := sys_trace s @ map Sent sent @ [Kept (map fst (sentNotifications p))]\<rparr>)"
| "step env pf (ScanRound fetchOk) s =
     (case sys_scan s of
        [] \<Rightarrow> s
      | pair # rest \<Rightarrow>
          s\<lparr>sys_poller := scan_round (sys_threads s) fetchOk pair (sys_poller s),
            sys_scan := rest,
            sys_trace := sys_trace s
               @ map (Seen (fst pair)) (scan_reads (sys_threads s) fetchOk pair)\<rparr>)"
| "step env pf (Restart b now) s =
     start now (s\<lparr>sys_bot := b,
                   sys_poller := new_poller (intervalSeconds (sys_poller s)) now,
                   sys_scan := [],
                   sys_trace := sys_trace s @ [Started]\<rparr>)"
| "step env pf (Rebind b) s = s\<lparr>sys_bot := b\<rparr>"
| "step env pf (Chat threadId msg) s =
     (case sys_threads s threadId of
        None \<Rightarrow> s
      | Some msgs \<Rightarrow> s\<lparr>sys_threads := (sys_threads s)(threadId \<mapsto> msg # msgs)\<rparr>)"
| "step env pf (Edit threadId msgs) s = s\<lparr>sys_threads := (sys_threads s)(threadId \<mapsto> msgs)\<rparr>"

definition run :: "env \<Rightarrow> platform \<Rightarrow> event list \<Rightarrow> system \<Rightarrow> system" where
  "run env pf evs s = fold (step env pf) evs s"

section \<open>The content aggregator (index.js)\<close>

subsection \<open>String helpers\<close>

text \<open>
  The characters that \<open>trim\<close> strips and that \<open>\s\<close> matches, and the line terminators
  that \<open>.\<close> does not match.
\<close>

definition is_space :: "nat \<Rightarrow> bool" where
  "is_space c =
     (c \<in> set [9, 10, 11, 12, 13, 32, 0xA0, 0x1680, 0x2028, 0x2029, 0x202F, 0x205F, 0x3000, 0xFEFF]
      \<or> (0x2000 \<le> c \<and> c \<le> 0x200A))"

definition is_line_terminator :: "nat \<Rightarrow> bool" where
  "is_line_terminator c = (c \<in> set [10, 13, 0x2028, 0x2029])"

definition trim :: "jsstring \<Rightarrow> jsstring" where
  "trim s = rev (dropWhile is_space (rev (dropWhile is_space s)))"

text \<open>
  A regular expression with the \<open>i\<close> flag and ASCII letters in its pattern matches a code
  unit exactly when the unit is that letter in either case.
\<close>

definition ascii_lower :: "nat \<Rightarrow> nat" where
  "ascii_lower c = (if 65 \<le> c \<and> c \<le> 90 then c + 32 else c)"

definition starts_with :: "'a list \<Rightarrow> 'a list \<Rightarrow> bool" where
  "starts_with p s = (take (length p) s = p)"

definition strip_prefix :: "'a list \<Rightarrow> 'a list \<Rightarrow> 'a list option" where
  "strip_prefix p s = (if starts_with p s then Some (drop (length p) s) else None)"

definition opt_prefix :: "'a list \<Rightarrow> 'a list \<Rightarrow> 'a list" where
  "opt_prefix p s = (case strip_prefix p s of Some r \<Rightarrow> r | None \<Rightarrow> s)"

fun exists_suffix :: "('a list \<Rightarrow> bool) \<Rightarrow> 'a list \<Rightarrow> bool" where
  "exists_suffix P [] = P []"
| "exists_suffix P (c # cs) = (P (c # cs) \<or> exists_suffix P cs)"

text \<open>\<open>s.includes(p)\<close>\<close>

definition str_includes :: "jsstring \<Rightarrow> jsstring \<Rightarrow> bool" where
  "str_includes p s = exists_suffix (starts_with p) s"

fun js_join :: "jsstring \<Rightarrow> jsstring list \<Rightarrow> jsstring" where
  "js_join sep [] = []"
| "js_join sep [x] = x"
| "js_join sep (x # y # ys) = x @ sep @ js_join sep (y # ys)"

text \<open>
  \<open>/\.(e1|e2|...)(\?|$)/.test(s)\<close>: somewhere a dot, one of the extensions, and then a
  question mark or the end of the string.
\<close>

definition ext_here :: "jsstring list \<Rightarrow> jsstring \<Rightarrow> bool" where
  "ext_here exts t =
     (case t of
        [] \<Rightarrow> False
      | c # r \<Rightarrow>
          c = 46 \<and> list_ex (\<lambda>ext. starts_with ext r
                                 \<and> (case drop (length ext) r of [] \<Rightarrow> True | q # _ \<Rightarrow> q = 63)) exts)"

definition ext_regex :: "jsstring list \<Rightarrow> jsstring \<Rightarrow> bool" where
  "ext_regex exts s = exists_suffix (ext_here exts) s"

definition image_exts :: "jsstring list" where
  "image_exts = [u ''png'', u ''jpg'', u ''jpeg'', u ''webp'']"

definition video_exts :: "jsstring list" where
  "video_exts = [u ''mp4'', u ''mov'', u ''avi'', u ''webm'', u ''mkv'']"

definition audio_exts :: "jsstring list" where
  "audio_exts = [u ''mp3'', u ''wav'', u ''ogg'', u ''flac'', u ''m4a'']"

subsection \<open>Media detection\<close>

text \<open>\<open>/^https?:\/\/(www\.)?tenor\.com\/view\/[^\s]+$/i\<close>\<close>

definition tenorShare :: "jsstring \<Rightarrow> bool" where
  "tenorShare t =
     (case strip_prefix (u ''http'') (map ascii_lower t) of
        None \<Rightarrow> False
      | Some r1 \<Rightarrow>
          (case strip_prefix (u ''://'') (opt_prefix (u ''s'') r1) of
             None \<Rightarrow> False
           | Some r2 \<Rightarrow>
               (case strip_prefix (u ''tenor.com/view/'') (opt_prefix (u ''www.'') r2) of
                  None \<Rightarrow> False
                | Some r3 \<Rightarrow> r3 \<noteq> [] \<and> list_all (\<lambda>c. \<not> is_space c) r3)))"

definition isJustMediaUrl :: "jsstring \<Rightarrow> bool" where
  "isJustMediaUrl content' =
     (let trimmed = trim content' in
      if trimmed = [] then False
      else if ext_regex (u ''gif'' # image_exts @ video_exts @ audio_exts) (map ascii_lower trimmed)
        then True
      else if str_includes (u ''cdn.discordapp.com'') (map ascii_lower trimmed)
              \<or> str_includes (u ''media.discordapp.net'') (map ascii_lower trimmed)
        then True
      else if tenorShare trimmed then True
      else False)"

definition getMediaTypeFromUrl :: "platform \<Rightarrow> jsstring \<Rightarrow> jsstring" where
  "getMediaTypeFromUrl pf url' =
     (let lowerUrl = toLowerCase pf url' in
      if str_includes (u ''.gif'') lowerUrl \<or> str_includes (u ''gif'') lowerUrl then u ''a GIF''
      else if str_includes (u ''tenor.com/view/'') lowerUrl then u ''a GIF''
      else if ext_regex image_exts lowerUrl then u ''an Image''
      else if ext_regex video_exts lowerUrl then u ''a Video''
      else if ext_regex audio_exts lowerUrl then u ''an Audio File''
      else u ''a File'')"

record types =
  images :: nat
  videos :: nat
  audio :: nat
  files :: nat
  gifs :: nat

text \<open>\<open>name.split('.').pop()\<close>: what follows the last dot, the whole name without one.\<close>

definition last_segment :: "jsstring \<Rightarrow> jsstring" where
  "last_segment name = rev (takeWhile (\<lambda>c. c \<noteq> 46) (rev name))"

definition categorize_one :: "platform \<Rightarrow> attachment \<Rightarrow> types \<Rightarrow> types" where
  "categorize_one pf att ty =
     (let ext = toLowerCase pf (last_segment (att_name att));
          contentType = (case att_contentType att of Str c \<Rightarrow> toLowerCase pf c | _ \<Rightarrow> [])
      in if ext = u ''gif'' \<or> str_includes (u ''gif'') contentType then ty\<lparr>gifs := gifs ty + 1\<rparr>
         else if ext \<in> set [u ''png'', u ''jpg'', u ''jpeg'', u ''webp'', u ''bmp'']
                 \<or> starts_with (u ''image/'') contentType then ty\<lparr>images := images ty + 1\<rparr>
         else if ext \<in> set video_exts \<or> starts_with (u ''video/'') contentType
           then ty\<lparr>videos := videos ty + 1\<rparr>
         else if ext \<in> set audio_exts \<or> starts_with (u ''audio/'') contentType
           then ty\<lparr>audio := audio ty + 1\<rparr>
         else ty\<lparr>files := files ty + 1\<rparr>)"

definition count_part :: "nat \<Rightarrow> jsstring \<Rightarrow> jsstring \<Rightarrow> jsstring list" where
  "count_part n one many = (if n > 0 then [if n = 1 then one else digits n @ many] else [])"

definition categorizeAttachments :: "platform \<Rightarrow> attachment list \<Rightarrow> jsstring" where
  "categorizeAttachments pf atts =
     (let ty = fold (categorize_one pf) atts
                 \<lparr>images = 0, videos = 0, audio = 0, files = 0, gifs = 0\<rparr>;
          parts = count_part (gifs ty) (u ''a GIF'') (u '' GIFs'')
                  @ count_part (images ty) (u ''an Image'') (u '' Images'')
                  @ count_part (videos ty) (u ''a Video'') (u '' Videos'')
                  @ count_part (audio ty) (u ''an Audio File'') (u '' Audio Files'')
                  @ count_part (files ty) (u ''a File'') (u '' Files'')
      in case parts of
           [] \<Rightarrow> u ''an Attachment''
         | [p0] \<Rightarrow> p0
         | [p0, p1] \<Rightarrow> p0 @ u '' and '' @ p1
         | _ \<Rightarrow> js_join (u '', '') (butlast parts) @ u '', and '' @ last parts)"

definition getEmbedType :: "msg_embed \<Rightarrow> jsstring" where
  "getEmbedType e =
     (if etype e = Str (u ''image'') then u ''an Image''
      else if etype e = Str (u ''gifv'') then u ''a GIF''
      else if etype e = Str (u ''video'') then u ''a Video''
      else if etype e = Str (u ''rich'') \<and> e_image e \<noteq> None then u ''an Image''
      else if etype e = Str (u ''rich'') \<and> e_video e \<noteq> None then u ''a Video''
      else if truthy (url e) then u ''a Link''
      else u ''an Embed'')"

subsection \<open>Markdown\<close>

text \<open>
  \<open>formatDiscordMarkdown\<close> chains eight \<open>replace\<close> calls. Six of them put back what they
  matched (\<open>**$1**\<close> for \<open>\*\*(.*?)\*\*\<close>, and likewise for \<open>*\<close>, \<open>__\<close>, \<open>~~\<close>, the
  backtick and \<open>> \<close>), so they leave the string as it is. The other two are the sixth, which
  puts a line break on both sides of every run of six backticks, and the last, which turns
  \<open>||text||\<close> into \<open>[SPOILER: text]\<close>, \<open>text\<close> being the shortest run without a line
  terminator.
\<close>

function replace_six_backticks :: "jsstring \<Rightarrow> jsstring" where
  "replace_six_backticks [] = []"
| "replace_six_backticks (c # cs) =
     (if starts_with (replicate 6 96) (c # cs)
      then [10] @ replicate 6 96 @ [10] @ replace_six_backticks (drop 5 cs)
      else c # replace_six_backticks cs)"
  by pat_completeness auto
termination
  by (relation "measure length") auto

fun find_close :: "jsstring \<Rightarrow> nat option" where
  "find_close [] = None"
| "find_close (c # cs) =
     (if starts_with [124, 124] (c # cs) then Some 0
      else if is_line_terminator c then None
      else map_option Suc (find_close cs))"

function replace_spoilers :: "jsstring \<Rightarrow> jsstring" where
  "replace_spoilers [] = []"
| "replace_spoilers (c # cs) =
     (if starts_with [124, 124] (c # cs) then
        (case find_close (tl cs) of
           Some k \<Rightarrow>
             u ''[SPOILER: '' @ take k (tl cs) @ u '']'' @ replace_spoilers (drop (k + 2) (tl cs))
         | None \<Rightarrow> c # replace_spoilers cs)
      else c # replace_spoilers cs)"
  by pat_completeness auto
termination
  by (relation "measure length") auto

definition formatDiscordMarkdown :: "jsstring \<Rightarrow> jsstring" where
  "formatDiscordMarkdown content' = replace_spoilers (replace_six_backticks content')"

subsection \<open>Rendering one message\<close>

definition glyph_link :: jsstring where "glyph_link = [0xF0, 0x178, 0x201D, 0x2014]"
definition glyph_bullet :: jsstring where "glyph_bullet = [0xE2, 0x20AC, 0xA2]"
definition glyph_creator :: jsstring where "glyph_creator = [0xF0, 0x178, 0x2018, 0x2018]"
definition glyph_reply :: jsstring where "glyph_reply = [0xF0, 0x178, 0x2019, 0xAD]"
definition glyph_speech :: jsstring where "glyph_speech = [0xF0, 0x178, 0x2019, 0xAC]"
definition glyph_memo :: jsstring where "glyph_memo = [0xF0, 0x178, 0x201C]"
definition glyph_people :: jsstring where "glyph_people = [0xF0, 0x178, 0x2018, 0xA5]"
definition glyph_clipboard :: jsstring where "glyph_clipboard = [0xF0, 0x178, 0x201C, 0x2039]"
definition glyph_up :: jsstring where "glyph_up = [0xE2, 0xAC, 0x2020, 0xEF, 0xB8]"
definition glyph_down :: jsstring where "glyph_down = [0xF0, 0x178, 0x201D, 0xBD]"
definition glyph_calendar :: jsstring where "glyph_calendar = [0xF0, 0x178, 0x201C, 0x2026]"
definition rule_line :: jsstring where "rule_line = concat (replicate 39 [0xE2, 0x2022])"

definition processEmbeds :: "msg_embed list \<Rightarrow> jsstring" where
  "processEmbeds es =
     concat (map (\<lambda>e. if truthy (url e) then glyph_link @ u '' '' @ toStr (url e) @ [10] else []) es)"

definition processAttachments :: "attachment list \<Rightarrow> jsstring" where
  "processAttachments atts = concat (map (\<lambda>a. glyph_link @ u '' '' @ att_url a @ [10]) atts)"

definition formatMessageForCard :: "platform \<Rightarrow> message \<Rightarrow> bool \<Rightarrow> jsstring" where
  "formatMessageForCard pf message isOriginalPost =
    (let timestamp' = fmtStamp pf (createdTimestamp message);
         author = author_username message;
         content' = content message;
         authorPrefix = (if isOriginalPost then glyph_creator @ u '' **THREAD CREATOR**''
                         else glyph_reply);
         formattedMessage = [10] @ authorPrefix @ u '' **'' @ author @ u ''** '' @ glyph_bullet
                              @ u '' *'' @ timestamp' @ u ''*'' @ [10];
         isJustUrl = isJustMediaUrl content';
         hasTextContent = (length (trim content') > 0 \<and> \<not> isJustUrl);
         hasAttachments = (length (attachments message) > 0);
         hasEmbeds = (length (embeds message) > 0)
     in
       if (\<not> hasTextContent \<and> (hasAttachments \<or> hasEmbeds)) \<or> isJustUrl then
         (if isJustUrl then
            formattedMessage
              @ u ''*'' @ author @ u '' only attached '' @ getMediaTypeFromUrl pf (trim content')
              @ u ''*'' @ [10]
              @ glyph_link @ u '' '' @ trim content' @ [10]
          else
            (case attachments message of
               firstAttachment # _ \<Rightarrow>
                 formattedMessage
                   @ u ''*'' @ author @ u '' only attached ''
                   @ categorizeAttachments pf (attachments message) @ u ''*'' @ [10]
                   @ glyph_link @ u '' '' @ att_url firstAttachment @ [10]
             | [] \<Rightarrow>
                 (case embeds message of
                    e # _ \<Rightarrow>
                      formattedMessage
                        @ u ''*'' @ author @ u '' only attached '' @ getEmbedType e @ u ''*'' @ [10]
                        @ (if truthy (url e) then glyph_link @ u '' '' @ toStr (url e) @ [10]
                           else [])
                  | [] \<Rightarrow> formattedMessage)))
         @ [10] @ u ''---'' @ [10]
       else
         (if hasTextContent then
            formattedMessage
              @ (if isOriginalPost
                 then u ''**'' @ glyph_memo @ u '' ORIGINAL THREAD CONTENT:**'' @ [10] else [])
              @ formatDiscordMarkdown content' @ [10]
              @ (if length (embeds message) > 0 \<and> trim (processEmbeds (embeds message)) \<noteq> []
                 then processEmbeds (embeds message) else [])
              @ (if length (attachments message) > 0
                    \<and> processAttachments (attachments message) \<noteq> []
                 then processAttachments (attachments message) else [])
          else formattedMessage)
         @ [10] @ u ''---'' @ [10])"

subsection \<open>The description of a card\<close>

text \<open>
  A forum thread as the handlers receive it; its messages are in the channels of the
  thread system.
\<close>

record thread =
  thread_id :: jsstring
  thread_name :: jsstring
  thread_created :: int
  isThread :: bool
  parentId :: jsval

text \<open>
  \<open>fetchAllThreadMessages\<close> asks for pages of 100 messages, each page before the last
  message of the previous one, until a page comes back empty; it keeps the messages that no
  bot wrote and reverses the whole.
\<close>

function fetch_pages :: "message list \<Rightarrow> message list" where
  "fetch_pages msgs =
     (let fetchedMessages = take 100 msgs in
      if length fetchedMessages = 0 then []
      else filter (\<lambda>msg. \<not> author_bot msg) fetchedMessages @ fetch_pages (drop 100 msgs))"
  by pat_completeness auto
termination
  by (relation "measure length") auto

declare fetch_pages.simps [simp del]

definition fetchAllThreadMessages :: "message list \<Rightarrow> message list" where
  "fetchAllThreadMessages msgs = rev (fetch_pages msgs)"

definition messages_of :: "(jsstring \<times> message list) list \<Rightarrow> jsstring \<Rightarrow> message list" where
  "messages_of grouped date = (case map_get grouped date of None \<Rightarrow> [] | Some ms \<Rightarrow> ms)"

definition groupMessagesByDate :: "platform \<Rightarrow> message list \<Rightarrow> (jsstring \<times> message list) list" where
  "groupMessagesByDate pf messages =
     fold (\<lambda>message grouped.
             let date = fmtDay pf (createdTimestamp message);
                 g1 = (if \<not> map_has grouped date then map_set date [] grouped else grouped)
             in map_set date (messages_of g1 date @ [message]) g1)
       messages []"

definition build_description :: "platform \<Rightarrow> thread \<Rightarrow> message list \<Rightarrow> jsstring" where
  "build_description pf thread messages =
    (let threadCreated = fmtCreated pf (thread_created thread);
         participants = fold set_add (map author_username messages) [];
         replies = drop 1 messages
     in
       u ''# '' @ glyph_speech @ u '' '' @ thread_name thread @ [10, 10]
       @ u ''**'' @ glyph_memo @ u '' Thread Details**'' @ [10]
       @ glyph_bullet @ u '' **ID:** `'' @ thread_id thread @ u ''`'' @ [10]
       @ glyph_bullet @ u '' **Created:** '' @ threadCreated @ [10]
       @ glyph_bullet @ u '' **Messages:** '' @ digits (length messages) @ [10]
       @ glyph_bullet @ u '' **Participants:** '' @ digits (length participants) @ [10, 10]
       @ u ''**'' @ glyph_people @ u '' Participants:** '' @ js_join (u '', '') participants
       @ [10, 10]
       @ u ''## '' @ glyph_clipboard @ u '' Original Thread Post'' @ [10]
       @ u ''**'' @ rule_line @ u ''**'' @ [10, 10]
       @ (case messages of
            [] \<Rightarrow> []
          | originalPost # _ \<Rightarrow> formatMessageForCard pf originalPost True)
       @ [10] @ u ''**'' @ rule_line @ u ''**'' @ [10]
       @ u ''**'' @ glyph_up @ u '' END OF ORIGINAL POST '' @ glyph_up @ u ''**'' @ [10]
       @ u ''**'' @ rule_line @ u ''**'' @ [10, 10]
       @ (if length replies > 0 then
            u ''## '' @ glyph_speech @ u '' Thread Replies & Discussion'' @ [10]
            @ u ''**'' @ glyph_down @ u '' NEW CONTENT STARTS HERE '' @ glyph_down @ u ''**''
            @ [10, 10]
            @ concat (map (\<lambda>(date, dayMessages).
                             u ''### '' @ glyph_calendar @ u '' '' @ date @ [10]
                             @ concat (map (\<lambda>message. formatMessageForCard pf message False)
                                         dayMessages))
                        (groupMessagesByDate pf replies))
          else
            u ''## '' @ glyph_speech @ u '' Thread Replies'' @ [10]
            @ u ''*No replies yet - this thread only contains the original post.*'' @ [10]))"

section \<open>The attachment reconciler (index.js)\<close>

text \<open>
  The board system as far as a pass touches it: the description and the attachment list
  (url and name) of each card. \<open>add_calls\<close> records every \<open>addAttachment\<close> call that was
  issued, with where its candidate came from and whether the call succeeded.
\<close>

datatype origin = FromAttachment | FromEmbed | FromContent

record add_call =
  ac_card :: jsstring
  ac_url :: jsstring
  ac_name :: jsstring
  ac_origin :: origin
  ac_ok :: bool

record world =
  channels :: discord
  card_desc :: "jsstring \<Rightarrow> jsstring option"
  card_attachments :: "jsstring \<Rightarrow> (jsstring \<times> jsstring) list"
  add_calls :: "add_call list"

text \<open>
  What the remote calls of one pass do: whether fetching the messages, updating the card
  and listing its attachments succeed, and whether the \<open>n\<close>-th \<open>addAttachment\<close> call of the
  pass (counted from 0) succeeds.
\<close>

record pass_outcomes =
  fetchOk :: bool
  updateOk :: bool
  listOk :: bool
  addOk :: "nat \<Rightarrow> bool"

record recon =
  existingUrls :: "jsstring list"
  existingNames :: "jsstring list"
  processedUrls :: "jsstring list"
  processedNames :: "jsstring list"
  calls :: "add_call list"

text \<open>\<open>url.split('?')[0]\<close>\<close>

definition base_url :: "jsstring \<Rightarrow> jsstring" where
  "base_url s = takeWhile (\<lambda>c. c \<noteq> 63) s"

definition seed_existing :: "(jsstring \<times> jsstring) list \<Rightarrow> recon" where
  "seed_existing existingAttachments =
     fold (\<lambda>(att_url', att_name') st.
             st\<lparr>existingUrls := set_add (base_url att_url') (set_add att_url' (existingUrls st)),
                existingNames := set_add att_name' (existingNames st)\<rparr>)
       existingAttachments
       \<lparr>existingUrls = [], existingNames = [], processedUrls = [], processedNames = [],
        calls = []\<rparr>"

definition isDuplicateUrl :: "recon \<Rightarrow> jsstring \<Rightarrow> jsstring \<Rightarrow> bool" where
  "isDuplicateUrl st url' baseUrl =
     (url' \<in> set (existingUrls st) \<or> baseUrl \<in> set (existingUrls st)
      \<or> url' \<in> set (processedUrls st) \<or> baseUrl \<in> set (processedUrls st))"

definition isDuplicateName :: "recon \<Rightarrow> jsstring \<Rightarrow> bool" where
  "isDuplicateName st name = (name \<in> set (existingNames st) \<or> name \<in> set (processedNames st))"

text \<open>
  The body shared, word for word, by the loop over the attachments of a message and the loop
  over its embeds: the candidate is added unless its url, its base url or its name is known;
  a call that throws is logged and records nothing.
\<close>

definition add_named ::
  "(nat \<Rightarrow> bool) \<Rightarrow> jsstring \<Rightarrow> origin \<Rightarrow> jsstring \<Rightarrow> jsstring \<Rightarrow> recon \<Rightarrow> recon" where
  "add_named ok cardId org url' name st =
     (let baseUrl = base_url url' in
      if \<not> isDuplicateUrl st url' baseUrl \<and> \<not> isDuplicateName st name then
        if ok (length (calls st)) then
          st\<lparr>processedUrls := set_add baseUrl (set_add url' (processedUrls st)),
             processedNames := set_add name (processedNames st),
             existingUrls := set_add baseUrl (set_add url' (existingUrls st)),
             existingNames := set_add name (existingNames st),
             calls := calls st @ [\<lparr>ac_card = cardId, ac_url = url', ac_name = name,
                                    ac_origin = org, ac_ok = True\<rparr>]\<rparr>
        else
          st\<lparr>calls := calls st @ [\<lparr>ac_card = cardId, ac_url = url', ac_name = name,
                                    ac_origin = org, ac_ok = False\<rparr>]\<rparr>
      else st)"

definition process_attachment :: "(nat \<Rightarrow> bool) \<Rightarrow> jsstring \<Rightarrow> attachment \<Rightarrow> recon \<Rightarrow> recon" where
  "process_attachment ok cardId att st =
     add_named ok cardId FromAttachment (att_url att) (att_name att) st"

text \<open>
  An embed gives at most one link: the image url, else the video url, else the embed's own
  url unless the embed is of type \<open>image\<close> or \<open>gifv\<close>.
\<close>

definition embed_candidate :: "msg_embed \<Rightarrow> (jsstring \<times> jsstring) option" where
  "embed_candidate e =
     (if (case e_image e of Some v \<Rightarrow> truthy v | None \<Rightarrow> False) then
        Some (toStr (case e_image e of Some v \<Rightarrow> v | None \<Rightarrow> Undefined),
              toStr (js_or (title e) (Str (u ''Embedded Image''))))
      else if (case e_video e of Some v \<Rightarrow> truthy v | None \<Rightarrow> False) then
        Some (toStr (case e_video e of Some v \<Rightarrow> v | None \<Rightarrow> Undefined),
              toStr (js_or (title e) (Str (u ''Embedded Video''))))
      else if truthy (url e) \<and> etype e \<noteq> Str (u ''image'') \<and> etype e \<noteq> Str (u ''gifv'') then
        Some (toStr (url e), toStr (js_or (title e) (Str (u ''Embedded Link''))))
      else None)"

definition process_embed :: "(nat \<Rightarrow> bool) \<Rightarrow> jsstring \<Rightarrow> msg_embed \<Rightarrow> recon \<Rightarrow> recon" where
  "process_embed ok cardId e st =
     (case embed_candidate e of
        None \<Rightarrow> st
      | Some (urlToProcess, attachmentName) \<Rightarrow>
          add_named ok cardId FromEmbed urlToProcess attachmentName st)"

text \<open>
  \<open>content.match(/(https?:\/\/[^\s]+)/g) || []\<close>: the matches from left to right, each
  running up to the next white space.
\<close>

definition url_scheme_len :: "jsstring \<Rightarrow> nat option" where
  "url_scheme_len s =
     (if starts_with (u ''https://'') s then Some 8
      else if starts_with (u ''http://'') s then Some 7
      else None)"

function match_urls :: "jsstring \<Rightarrow> jsstring list" where
  "match_urls [] = []"
| "match_urls (c # cs) =
     (case url_scheme_len (c # cs) of
        None \<Rightarrow> match_urls cs
      | Some n \<Rightarrow>
          if takeWhile (\<lambda>x. \<not> is_space x) (drop n (c # cs)) = [] then match_urls cs
          else (take n (c # cs) @ takeWhile (\<lambda>x. \<not> is_space x) (drop n (c # cs)))
                 # match_urls (dropWhile (\<lambda>x. \<not> is_space x) (drop n (c # cs))))"
  by pat_completeness auto
termination
proof (relation "measure length")
  show "wf (measure length)" by simp
next
  fix c :: nat and cs :: "nat list"
  show "(cs, c # cs) \<in> measure length" by simp
next
  fix c :: nat and cs :: "nat list" and n :: nat
  assume "url_scheme_len (c # cs) = Some n"
  then show "(cs, c # cs) \<in> measure length" by simp
next
  fix c :: nat and cs :: "nat list" and n :: nat
  assume "url_scheme_len (c # cs) = Some n"
  then have "0 < n" by (auto simp: url_scheme_len_def split: if_splits)
  then have "length (drop n (c # cs)) < length (c # cs)" by simp
  moreover have "length (dropWhile (\<lambda>x. \<not> is_space x) (drop n (c # cs))) \<le> length (drop n (c # cs))"
    by (rule length_dropWhile_le)
  ultimately show "(dropWhile (\<lambda>x. \<not> is_space x) (drop n (c # cs)), c # cs) \<in> measure length"
    by simp
qed

text \<open>
  A bare link is added unless its url or base url is known. Its name is the constant
  \<open>Shared Link\<close>, which is neither looked up nor recorded.
\<close>

definition process_url :: "(nat \<Rightarrow> bool) \<Rightarrow> jsstring \<Rightarrow> jsstring \<Rightarrow> recon \<Rightarrow> recon" where
  "process_url ok cardId url' st =
     (let baseUrl = base_url url'; attachmentName = u ''Shared Link'' in
      if \<not> isDuplicateUrl st url' baseUrl then
        if ok (length (calls st)) then
          st\<lparr>processedUrls := set_add baseUrl (set_add url' (processedUrls st)),
             existingUrls := set_add baseUrl (set_add url' (existingUrls st)),
             calls := calls st @ [\<lparr>ac_card = cardId, ac_url = url', ac_name = attachmentName,
                                    ac_origin = FromContent, ac_ok = True\<rparr>]\<rparr>
        else
          st\<lparr>calls := calls st @ [\<lparr>ac_card = cardId, ac_url = url', ac_name = attachmentName,
                                    ac_origin = FromContent, ac_ok = False\<rparr>]\<rparr>
      else st)"

definition process_message :: "(nat \<Rightarrow> bool) \<Rightarrow> jsstring \<Rightarrow> message \<Rightarrow> recon \<Rightarrow> recon" where
  "process_message ok cardId message st =
     fold (process_url ok cardId) (match_urls (content message))
       (fold (process_embed ok cardId) (embeds message)
          (fold (process_attachment ok cardId) (attachments message) st))"

text \<open>
  \<open>updateCardWithAllMessages\<close>. Everything is inside one \<open>try\<close>, so a failing fetch, update
  or listing ends the pass where it stands and nothing is thrown. A successful
  \<open>addAttachment\<close> call puts the attachment on the card.
\<close>

definition updateCardWithAllMessages ::
  "platform \<Rightarrow> pass_outcomes \<Rightarrow> thread \<Rightarrow> jsstring \<Rightarrow> world \<Rightarrow> world" where
  "updateCardWithAllMessages pf po thread cardId w =
    (case channels w (thread_id thread) of
       None \<Rightarrow> w
     | Some msgs \<Rightarrow>
         if \<not> fetchOk po then w
         else
           let messages = fetchAllThreadMessages msgs;
               description' = build_description pf thread messages
           in if \<not> updateOk po then w
              else
                let w1 = w\<lparr>card_desc := (card_desc w)(cardId \<mapsto> description')\<rparr>
                in if \<not> listOk po then w1
                   else
                     let existingAttachments = card_attachments w1 cardId;
                         st = fold (process_message (addOk po) cardId) messages
                                (seed_existing existingAttachments)
                     in w1\<lparr>card_attachments :=
                              (card_attachments w1)
                                (cardId := existingAttachments
                                   @ map (\<lambda>c. (ac_url c, ac_name c)) (filter ac_ok (calls st))),
                            add_calls := add_calls w1 @ calls st\<rparr>)"

section \<open>The card sync orchestrator (index.js)\<close>

text \<open>
  What the remote calls of one trigger do: \<open>creator\<close> is what \<open>getThreadCreator\<close>
  resolves to (a user name or \<open>Unknown\<close>), \<open>search\<close> the id and name of the cards that
  \<open>searchCards\<close> lists (\<open>None\<close> when it throws), \<open>created\<close> what \<open>card.create\<close> does (it
  throws, or it returns data whose \<open>id\<close> field is the value given), and \<open>pass1\<close>, \<open>pass2\<close>
  the outcomes of the first and the second update pass that the trigger runs.
\<close>

datatype create_outcome = CreateThrows | CreateReturns jsval

record outcomes =
  creator :: jsstring
  search :: "(jsstring \<times> jsstring) list option"
  created :: create_outcome
  pass1 :: pass_outcomes
  pass2 :: pass_outcomes

datatype error = CardCreationFailed | InvalidCardData

type_synonym bstate = "bot \<times> world"

definition cardName :: "jsstring \<Rightarrow> jsstring \<Rightarrow> jsstring" where
  "cardName threadName threadCreator = u ''[Discord] '' @ threadName @ u '' - by '' @ threadCreator"

text \<open>\<open>findExistingCard\<close> catches a failing search and answers \<open>null\<close>.\<close>

definition findExistingCard ::
  "(jsstring \<times> jsstring) list option \<Rightarrow> jsstring \<Rightarrow> jsstring \<Rightarrow> jsstring option" where
  "findExistingCard found threadName threadCreator =
     (case found of
        None \<Rightarrow> None
      | Some cards \<Rightarrow>
          (case find (\<lambda>card. snd card = cardName threadName threadCreator) cards of
             None \<Rightarrow> None
           | Some existingCard \<Rightarrow> Some (fst existingCard)))"

text \<open>
  \<open>threadCardMap.set(thread.id, cardId); cardThreadMap.set(cardId, thread.id)\<close>
\<close>

definition set_both :: "jsstring \<Rightarrow> jsstring \<Rightarrow> bot \<Rightarrow> bot" where
  "set_both threadId cardId b =
     b\<lparr>threadCardMap := map_set threadId cardId (threadCardMap b),
       cardThreadMap := map_set cardId threadId (cardThreadMap b)\<rparr>"

text \<open>
  \<open>createNewThreadCard\<close> rethrows what \<open>createTrelloCard\<close> throws and throws itself when
  the data returned has no id. The request that \<open>createTrelloCard\<close> builds (name,
  placeholder description, list, position) goes to the board system and is not read again.
\<close>

definition createNewThreadCard ::
  "platform \<Rightarrow> outcomes \<Rightarrow> thread \<Rightarrow> bstate \<Rightarrow> (error + unit) \<times> bstate" where
  "createNewThreadCard pf oc thread s =
    (case s of (b, w) \<Rightarrow>
      (case created oc of
         CreateThrows \<Rightarrow> (Inl CardCreationFailed, s)
       | CreateReturns v \<Rightarrow>
           if \<not> truthy v then (Inl InvalidCardData, s)
           else
             (Inr (),
              set_both (thread_id thread) (toStr v) b,
              updateCardWithAllMessages pf (pass1 oc) thread (toStr v) w)))"

text \<open>
  The part of \<open>processExistingThread\<close> and \<open>handleNewThread\<close> that both run inside their
  \<open>try\<close>: use the card found by name, or create one. An id that is the empty string counts
  as no card.
\<close>

definition find_or_create ::
  "platform \<Rightarrow> outcomes \<Rightarrow> thread \<Rightarrow> bstate \<Rightarrow> (error + unit) \<times> bstate" where
  "find_or_create pf oc thread s =
    (case s of (b, w) \<Rightarrow>
      (case findExistingCard (search oc) (thread_name thread) (creator oc) of
         Some existingCardId \<Rightarrow>
           if existingCardId \<noteq> [] then
             (Inr (),
              set_both (thread_id thread) existingCardId b,
              updateCardWithAllMessages pf (pass1 oc) thread existingCardId w)
           else createNewThreadCard pf oc thread s
       | None \<Rightarrow> createNewThreadCard pf oc thread s))"

text \<open>\<open>processExistingThread\<close> logs whatever is thrown and returns.\<close>

definition processExistingThread ::
  "platform \<Rightarrow> outcomes \<Rightarrow> thread \<Rightarrow> bstate \<Rightarrow> (error + unit) \<times> bstate" where
  "processExistingThread pf oc thread s =
     (case find_or_create pf oc thread s of
        (Inl e, s') \<Rightarrow> (Inr (), s')
      | (Inr x, s') \<Rightarrow> (Inr (), s'))"

text \<open>
  \<open>handleNewThread\<close>. While no other handler runs, the loop that waits for a thread in
  \<open>processingThreads\<close> changes nothing, and the handler goes on as if the thread were not
  there unless the mapping exists by then. The \<open>catch\<close> logs the error; the \<open>finally\<close> takes
  the thread out of \<open>processingThreads\<close>.
\<close>

definition handleNewThread ::
  "platform \<Rightarrow> outcomes \<Rightarrow> thread \<Rightarrow> bstate \<Rightarrow> (error + unit) \<times> bstate" where
  "handleNewThread pf oc thread s =
    (case s of (b, w) \<Rightarrow>
      (case map_get (threadCardMap b) (thread_id thread) of
         Some cardId \<Rightarrow> (Inr (), b, updateCardWithAllMessages pf (pass1 oc) thread cardId w)
       | None \<Rightarrow>
           if thread_id thread \<in> set (processingThreads b)
              \<and> map_has (threadCardMap b) (thread_id thread)
           then (Inr (), s)
           else
             (case find_or_create pf oc thread
                     (b\<lparr>processingThreads := set_add (thread_id thread) (processingThreads b)\<rparr>, w)
              of (r, b', w') \<Rightarrow>
                   (Inr (),
                    b'\<lparr>processingThreads := set_delete (thread_id thread) (processingThreads b')\<rparr>,
                    w'))))"

text \<open>
  \<open>handleThreadMessage\<close>: a bot's message is ignored; a thread without a card (none, or
  an empty id) goes through \<open>handleNewThread\<close> first; then the card is updated, which is a
  second pass when \<open>handleNewThread\<close> has run one.
\<close>

definition card_of :: "bot \<Rightarrow> jsstring \<Rightarrow> jsstring option" where
  "card_of b threadId =
     (case map_get (threadCardMap b) threadId of
        Some cardId \<Rightarrow> if cardId \<noteq> [] then Some cardId else None
      | None \<Rightarrow> None)"

definition handleThreadMessage ::
  "platform \<Rightarrow> outcomes \<Rightarrow> message \<Rightarrow> thread \<Rightarrow> bstate \<Rightarrow> (error + unit) \<times> bstate" where
  "handleThreadMessage pf oc message thread s =
    (case s of (b, w) \<Rightarrow>
      if author_bot message then (Inr (), s)
      else
        (case card_of b (thread_id thread) of
           Some cardId \<Rightarrow> (Inr (), b, updateCardWithAllMessages pf (pass1 oc) thread cardId w)
         | None \<Rightarrow>
             (case handleNewThread pf oc thread s of
                (r, b', w') \<Rightarrow>
                  (case card_of b' (thread_id thread) of
                     Some cardId \<Rightarrow>
                       (Inr (), b', updateCardWithAllMessages pf (pass2 oc) thread cardId w')
                   | None \<Rightarrow> (Inr (), b', w')))))"

text \<open>
  The events the bot listens to. \<open>Startup\<close> is \<open>initializeExistingThreads\<close> with the
  active threads of the forum (\<open>None\<close> when the forum channel is not found or the fetch
  throws); every thread comes with the outcomes of its own remote calls.
\<close>

datatype trigger =
    ThreadCreate thread outcomes
  | MessageCreate message thread outcomes
  | MessageUpdate message thread outcomes
  | Startup "(thread \<times> outcomes) list option"

definition env_val :: "env \<Rightarrow> string \<Rightarrow> jsval" where
  "env_val env name = (case env (u name) of None \<Rightarrow> Undefined | Some v \<Rightarrow> Str v)"

definition in_forum :: "env \<Rightarrow> thread \<Rightarrow> bool" where
  "in_forum env thread = (parentId thread = env_val env ''FORUM_CHANNEL_ID'')"

fun fire :: "env \<Rightarrow> platform \<Rightarrow> trigger \<Rightarrow> bstate \<Rightarrow> bstate" where
  "fire env pf (ThreadCreate thread oc) s =
     (if in_forum env thread then snd (handleNewThread pf oc thread s) else s)"
| "fire env pf (MessageCreate message thread oc) s =
     (if isThread thread \<and> in_forum env thread
      then snd (handleThreadMessage pf oc message thread s) else s)"
| "fire env pf (MessageUpdate message thread oc) s =
     (if isThread thread \<and> in_forum env thread
      then snd (handleThreadMessage pf oc message thread s) else s)"
| "fire env pf (Startup None) s = s"
| "fire env pf (Startup (Some threads)) s =
     fold (\<lambda>(thread, oc) s. snd (processExistingThread pf oc thread s)) threads s"

definition fire_all :: "env \<Rightarrow> platform \<Rightarrow> trigger list \<Rightarrow> bstate \<Rightarrow> bstate" where
  "fire_all env pf ts s = fold (fire env pf) ts s"

definition new_world :: "discord \<Rightarrow> world" where
  "new_world ch =
     \<lparr>channels = ch, card_desc = (\<lambda>c. None), card_attachments = (\<lambda>c. []), add_calls = []\<rparr>"

section \<open>Inputs and observations used by the statements\<close>

text \<open>The five flags that gate notifications.\<close>

definition gated_flags :: "string list" where
  "gated_flags = [''NOTIFY_LABEL_CHANGES'', ''NOTIFY_CHECKLIST_CHANGES'', ''NOTIFY_MEMBER_CHANGES'',
     ''NOTIFY_DUE_DATE_CHANGES'', ''NOTIFY_COMMENT_CHANGES'']"


text \<open>What one successful poll tick sends, in the order of the sends.\<close>

definition tick_deliveries ::
  "env \<Rightarrow> platform \<Rightarrow> bot \<Rightarrow> int \<Rightarrow> action list \<Rightarrow> (action \<Rightarrow> bool) \<Rightarrow> poller \<Rightarrow> discord
     \<Rightarrow> delivery list" where
  "tick_deliveries env pf b now actions sendOk p ch =
     snd (snd (checkForUpdates env pf b now (Some actions) sendOk (p, ch, [])))"

text \<open>
  The flag that gates an action: decided by the type alone for labels, checklists, members
  and comments, and for \<open>updateCard\<close> by the presence of a due date in the payload.
\<close>

definition flag_of :: "action \<Rightarrow> string option" where
  "flag_of a =
     (if atype a = u ''addLabelToCard'' \<or> atype a = u ''removeLabelFromCard''
        then Some ''NOTIFY_LABEL_CHANGES''
      else if atype a = u ''addChecklistToCard'' \<or> atype a = u ''updateCheckItemStateOnCard''
        then Some ''NOTIFY_CHECKLIST_CHANGES''
      else if atype a = u ''addMemberToCard'' \<or> atype a = u ''removeMemberFromCard''
        then Some ''NOTIFY_MEMBER_CHANGES''
      else if atype a = u ''commentCard'' then Some ''NOTIFY_COMMENT_CHANGES''
      else if atype a = u ''updateCard'' \<and> (old_due a \<noteq> Undefined \<or> card_due a \<noteq> Undefined)
        then Some ''NOTIFY_DUE_DATE_CHANGES''
      else None)"

subsection \<open>Concrete inputs\<close>

definition example_platform :: platform where
  "example_platform =
     \<lparr>toLowerCase = map ascii_lower, localeDate = id, fmtCreated = int_toString,
      fmtStamp = int_toString, fmtDay = (\<lambda>t. int_toString (t div 86400000))\<rparr>"

definition flags_on :: env where
  "flags_on = (\<lambda>k. if k \<in> set (map u gated_flags) then Some (u ''true'') else None)"

definition flags_on_verbose :: env where
  "flags_on_verbose = (\<lambda>k. if k = u ''LOG_LEVEL'' then Some (u ''debug'') else flags_on k)"

definition flags_off :: env where
  "flags_off = (\<lambda>k. None)"

definition always_ok :: "action \<Rightarrow> bool" where
  "always_ok a = True"

definition example_action :: "string \<Rightarrow> string \<Rightarrow> int \<Rightarrow> string \<Rightarrow> action" where
  "example_action i ty d c =
     \<lparr>aid = u i, atype = u ty, adate = d, card_id = Str (u c), card_name = Undefined,
      card_due = Undefined, label_name = Undefined, label_color = Undefined,
      checklist_name = Undefined, checkItem_name = Undefined, checkItem_state = Undefined,
      old_due = Undefined, old_name = Undefined, listBefore = None, listAfter = None,
      list_name = Undefined\<rparr>"

definition example_bot :: bot where
  "example_bot =
     \<lparr>threadCardMap = [(u ''t1'', u ''c1'')], cardThreadMap = [(u ''c1'', u ''t1'')],
      processingThreads = []\<rparr>"

definition example_channels :: discord where
  "example_channels = (\<lambda>t. if t = u ''t1'' then Some [] else None)"

definition human_message :: message where
  "human_message =
     \<lparr>mid = u ''m'', author_username = u ''ana'', author_bot = False, content = u ''hello'',
      attachments = [], embeds = [], createdTimestamp = 7\<rparr>"

text \<open>
  An action that sets a due date, and two hosts that render its date differently: in the
  time zone of the first the instant falls on the first of January, in that of the second
  on the day after.
\<close>

definition due_action :: action where
  "due_action =
     (example_action ''a2'' ''updateCard'' 6 ''c1'')
       \<lparr>card_due := Str (u ''2024-01-01T23:30:00.000Z'')\<rparr>"

definition host_west :: platform where
  "host_west = example_platform\<lparr>localeDate := (\<lambda>d. u ''1/1/2024'')\<rparr>"

definition host_east :: platform where
  "host_east = example_platform\<lparr>localeDate := (\<lambda>d. u ''1/2/2024'')\<rparr>"

subsection \<open>Runs of the process\<close>



text \<open>The pairs of card and content hash delivered in a run, one per send.\<close>

fun sent_pair :: "observation \<Rightarrow> (jsstring \<times> jsstring) list" where
  "sent_pair (Sent d) = [(d_card d, createContentHash (d_embed d))]"
| "sent_pair ob = []"

definition delivered_pairs :: "system \<Rightarrow> (jsstring \<times> jsstring) list" where
  "delivered_pairs s = concat (map sent_pair (sys_trace s))"


definition label_action :: action where
  "label_action = example_action ''a1'' ''addLabelToCard'' 5 ''c1''"

definition label_notification :: notification where
  "label_notification =
     mk_notification (emoji_label @ u '' Label Added'')
       (u ''Label **Unknown Label** was added to the card'') 0x61BD4F label_action"

definition label_delivery :: delivery where
  "label_delivery =
     \<lparr>d_thread = u ''t1'', d_card = u ''c1'', d_action = label_action,
      d_embed = label_notification\<rparr>"

subsection \<open>Inputs for the orchestrator\<close>

text \<open>
  A trigger whose card creation fails: \<open>card.create\<close> throws, or the data it returns has no
  id. A trigger that finds no card: the search fails or lists no card of the thread's name
  (or one whose id is empty).
\<close>

definition creation_fails :: "outcomes \<Rightarrow> bool" where
  "creation_fails oc = (case created oc of CreateThrows \<Rightarrow> True | CreateReturns v \<Rightarrow> \<not> truthy v)"

definition no_card_found :: "outcomes \<Rightarrow> thread \<Rightarrow> bool" where
  "no_card_found oc thread =
     (case findExistingCard (search oc) (thread_name thread) (creator oc) of
        None \<Rightarrow> True
      | Some cardId \<Rightarrow> cardId = [])"

definition example_thread :: thread where
  "example_thread =
     \<lparr>thread_id = u ''t1'', thread_name = u ''Bug 42'', thread_created = 0, isThread = True,
      parentId = Str (u ''forum'')\<rparr>"

definition ok_pass :: pass_outcomes where
  "ok_pass = \<lparr>fetchOk = True, updateOk = True, listOk = True, addOk = (\<lambda>n. True)\<rparr>"

definition search_fails :: outcomes where
  "search_fails =
     \<lparr>creator = u ''ana'', search = None, created = CreateReturns (Str (u ''c9'')),
      pass1 = ok_pass, pass2 = ok_pass\<rparr>"

definition search_and_create_fail :: outcomes where
  "search_and_create_fail =
     \<lparr>creator = u ''ana'', search = None, created = CreateThrows,
      pass1 = ok_pass, pass2 = ok_pass\<rparr>"

definition example_world :: world where
  "example_world = new_world (\<lambda>t. if t = u ''t1'' then Some [human_message] else None)"

definition forum_env :: env where
  "forum_env = (\<lambda>k. if k = u ''FORUM_CHANNEL_ID'' then Some (u ''forum'') else None)"



text \<open>
  What holds of the two maps: a JavaScript \<open>Map\<close> has one entry per key, and as the two
  maps are only written together, every card that a thread resolves to has an entry in the
  card-to-thread map and every thread that a card resolves to has an entry in the
  thread-to-card map.
\<close>

definition registry_ok :: "bot \<Rightarrow> bool" where
  "registry_ok b =
     (distinct (map fst (threadCardMap b)) \<and> distinct (map fst (cardThreadMap b))
      \<and> snd ` set (threadCardMap b) \<subseteq> fst ` set (cardThreadMap b)
      \<and> snd ` set (cardThreadMap b) \<subseteq> fst ` set (threadCardMap b))"

subsection \<open>Observations of the reconciler\<close>

text \<open>
  The \<open>addAttachment\<close> calls that one pass issues over given messages and a given
  attachment list of the card, and a sequence of passes over one thread and card.
\<close>

definition reconcile ::
  "(nat \<Rightarrow> bool) \<Rightarrow> jsstring \<Rightarrow> message list \<Rightarrow> (jsstring \<times> jsstring) list \<Rightarrow> add_call list" where
  "reconcile ok cardId messages existingAttachments =
     calls (fold (process_message ok cardId) messages (seed_existing existingAttachments))"

definition passes ::
  "platform \<Rightarrow> thread \<Rightarrow> jsstring \<Rightarrow> pass_outcomes list \<Rightarrow> world \<Rightarrow> world" where
  "passes pf thread cardId pos w =
     fold (\<lambda>po. updateCardWithAllMessages pf po thread cardId) pos w"

definition call_base :: "add_call \<Rightarrow> jsstring" where
  "call_base c = base_url (ac_url c)"

definition successful :: "add_call list \<Rightarrow> add_call list" where
  "successful cs = filter ac_ok cs"

text \<open>The successful calls whose candidate was an attachment or an embed.\<close>

definition successful_named :: "add_call list \<Rightarrow> add_call list" where
  "successful_named cs = filter (\<lambda>c. ac_ok c \<and> ac_origin c \<noteq> FromContent) cs"

definition calls_for :: "jsstring \<Rightarrow> add_call list \<Rightarrow> add_call list" where
  "calls_for baseUrl cs = filter (\<lambda>c. call_base c = baseUrl) cs"

text \<open>
  Reading a list of calls from its beginning: no call is issued for a base url in \<open>urls\<close>
  or added successfully by an earlier call of the list, and no call for an attachment or an
  embed is issued under a name in \<open>names\<close> or added successfully by an earlier call for
  an attachment or an embed.
\<close>

fun fresh_calls :: "jsstring list \<Rightarrow> jsstring list \<Rightarrow> add_call list \<Rightarrow> bool" where
  "fresh_calls urls names [] = True"
| "fresh_calls urls names (c # cs) =
     (call_base c \<notin> set urls
      \<and> (ac_origin c = FromContent \<or> ac_name c \<notin> set names)
      \<and> fresh_calls (if ac_ok c then call_base c # urls else urls)
            (if ac_ok c \<and> ac_origin c \<noteq> FromContent then ac_name c # names else names) cs)"

text \<open>
  What holds during a pass, relative to the attachment list the pass started from: what was
  on the card or was added successfully is in the seen sets, the successful calls repeat
  neither a base url nor, among attachments and embeds, a name, and no call was issued for
  what was seen.
\<close>

definition recon_inv :: "(jsstring \<times> jsstring) list \<Rightarrow> recon \<Rightarrow> bool" where
  "recon_inv existing st =
     (call_base ` set (successful (calls st)) \<subseteq> set (existingUrls st)
      \<and> base_url ` fst ` set existing \<subseteq> set (existingUrls st)
      \<and> distinct (map call_base (successful (calls st)))
      \<and> call_base ` set (successful (calls st)) \<inter> base_url ` fst ` set existing = {}
      \<and> ac_name ` set (successful_named (calls st)) \<subseteq> set (existingNames st)
      \<and> snd ` set existing \<subseteq> set (existingNames st)
      \<and> distinct (map ac_name (successful_named (calls st)))
      \<and> ac_name ` set (successful_named (calls st)) \<inter> snd ` set existing = {}
      \<and> fresh_calls (map base_url (map fst existing)) (map snd existing) (calls st))"

definition two_links :: message where
  "two_links =
     \<lparr>mid = u ''m1'', author_username = u ''ana'', author_bot = False,
      content = u ''see http://a.example/x and http://b.example/y'',
      attachments = [], embeds = [], createdTimestamp = 7\<rparr>"

definition one_attachment :: message where
  "one_attachment =
     \<lparr>mid = u ''m2'', author_username = u ''ana'', author_bot = False, content = u ''fixed!'',
      attachments = [\<lparr>att_url = u ''https://cdn.example.com/a.png?ex=1'', att_name = u ''a.png'',
                       att_contentType = Str (u ''image/png'')\<rparr>],
      embeds = [], createdTimestamp = 7\<rparr>"

definition failing_add :: pass_outcomes where
  "failing_add = \<lparr>fetchOk = True, updateOk = True, listOk = True, addOk = (\<lambda>n. False)\<rparr>"

definition attachment_world :: world where
  "attachment_world = new_world (\<lambda>t. if t = u ''t1'' then Some [one_attachment] else None)"


text \<open>A message with an attachment and a bare link to the same file.\<close>

definition attachment_and_link :: message where
  "attachment_and_link =
     \<lparr>mid = u ''m3'', author_username = u ''ana'', author_bot = False,
      content = u ''also at https://cdn.example.com/a.png?ex=2'',
      attachments = [\<lparr>att_url = u ''https://cdn.example.com/a.png?ex=1'', att_name = u ''a.png'',
                       att_contentType = Str (u ''image/png'')\<rparr>],
      embeds = [], createdTimestamp = 7\<rparr>"

subsection \<open>Observations of the aggregator\<close>

text \<open>
  Two hosts render dates the same way for the aggregator when they agree on the three date
  formats it uses and on case mapping.
\<close>

definition same_rendering :: "platform \<Rightarrow> platform \<Rightarrow> bool" where
  "same_rendering pf1 pf2 =
     (toLowerCase pf1 = toLowerCase pf2 \<and> fmtCreated pf1 = fmtCreated pf2
      \<and> fmtStamp pf1 = fmtStamp pf2 \<and> fmtDay pf1 = fmtDay pf2)"

text \<open>
  Two hosts in different time zones: the creation time of the thread reads differently on
  their clocks.
\<close>

definition clock_west :: platform where
  "clock_west = example_platform\<lparr>fmtCreated := (\<lambda>t. u ''January 1, 2024 at 11:30 PM UTC'')\<rparr>"

definition clock_east :: platform where
  "clock_east = example_platform\<lparr>fmtCreated := (\<lambda>t. u ''January 2, 2024 at 08:30 AM GMT+9'')\<rparr>"

definition spoiler_message :: message where
  "spoiler_message =
     \<lparr>mid = u ''m4'', author_username = u ''bob'', author_bot = False,
      content = u ''a ||secret|| b'', attachments = [], embeds = [], createdTimestamp = 9\<rparr>"

section \<open>Properties of the poller\<close>

lemmas js_eval = u_def js_or_def int_toString_def digits.simps set_add_def map_has_def
  map_get_def slice_last_def

lemmas format_eval = flag_on_def mk_notification_def emoji_label_def emoji_checklist_def
  emoji_done_def emoji_open_def emoji_member_def emoji_due_def emoji_rename_def
  emoji_move_def emoji_comment_def updateCard_due_def updateCard_name_def
  updateCard_move_def switch_type_def formatNotificationEmbed_def to_int32_def
  hash_step_def simpleHash_def createContentHash_def

lemmas poller_eval = as_msg_embed_def posted_def new_poller_def findThreadByCardId_def
  hashes_of_def cache_add_def processAction_def cleanupOldData_def handlePollingError_def
  process_step_def checkForUpdates_def tick_deliveries_def Let_def

lemmas example_eval = gated_flags_def example_platform_def flags_on_def flags_on_verbose_def
  flags_off_def always_ok_def example_action_def example_bot_def example_channels_def

subsection \<open>Rendering depends on the flags and the date format only\<close>

lemma switch_type_flags:
  assumes "list_all (\<lambda>name. flag_on env1 name = flag_on env2 name) gated_flags"
    and "localeDate pf1 = localeDate pf2"
  shows "switch_type env1 pf1 a = switch_type env2 pf2 a"
proof -
  have due: "updateCard_due pf1 a = updateCard_due pf2 a"
    unfolding updateCard_due_def assms(2) ..
  show ?thesis
    using assms(1) by (simp add: switch_type_def gated_flags_def due)
qed

text \<open>
  C10, as amended. Two calls of \<open>formatNotificationEmbed\<close> on the same action return the
  same result (the same payload, or \<open>null\<close> both times) whenever the two environments
  give the five notification flags the same values and the host renders dates the same
  way, that is, \<open>toLocaleDateString()\<close> with the same default locale and time zone;
  nothing else of the environment and nothing of the poller's state is read.
\<close>

theorem formatNotificationEmbed_deterministic:
  assumes "list_all (\<lambda>name. flag_on env1 name = flag_on env2 name) gated_flags"
    and "localeDate pf1 = localeDate pf2"
  shows "formatNotificationEmbed env1 pf1 a = formatNotificationEmbed env2 pf2 a"
  unfolding formatNotificationEmbed_def using switch_type_flags [OF assms] by simp

theorem formatNotificationEmbed_deterministic_witness:
  "formatNotificationEmbed flags_on example_platform
      (example_action ''a1'' ''addLabelToCard'' 5 ''c1'')
   = formatNotificationEmbed flags_on_verbose example_platform
      (example_action ''a1'' ''addLabelToCard'' 5 ''c1'')
   \<and> formatNotificationEmbed flags_on example_platform
      (example_action ''a1'' ''addLabelToCard'' 5 ''c1'')
     = Some (mk_notification (emoji_label @ u '' Label Added'')
         (u ''Label **Unknown Label** was added to the card'') 0x61BD4F
         (example_action ''a1'' ''addLabelToCard'' 5 ''c1''))"
proof -
  have flags: "list_all (\<lambda>name. flag_on flags_on name = flag_on flags_on_verbose name) gated_flags"
    by (simp add: example_eval flag_on_def u_def)
  have "formatNotificationEmbed flags_on example_platform
          (example_action ''a1'' ''addLabelToCard'' 5 ''c1'')
        = formatNotificationEmbed flags_on_verbose example_platform
          (example_action ''a1'' ''addLabelToCard'' 5 ''c1'')"
    using formatNotificationEmbed_deterministic [OF flags refl] .
  moreover have "formatNotificationEmbed flags_on example_platform
      (example_action ''a1'' ''addLabelToCard'' 5 ''c1'')
     = Some (mk_notification (emoji_label @ u '' Label Added'')
         (u ''Label **Unknown Label** was added to the card'') 0x61BD4F
         (example_action ''a1'' ''addLabelToCard'' 5 ''c1''))"
    by (simp add: example_eval format_eval js_eval)
  ultimately show ?thesis by simp
qed

text \<open>
  The claim as the specification words it fails: the action and the flags are the same,
  but the due date is rendered by the host, and on two hosts whose time zones put the
  instant on different days the descriptions differ, and so do the results.
\<close>

theorem other_zone_other_embed:
  "map_option description (formatNotificationEmbed flags_on host_west due_action)
     = Some (Str (u ''Due date was set to **1/1/2024**''))
   \<and> map_option description (formatNotificationEmbed flags_on host_east due_action)
     = Some (Str (u ''Due date was set to **1/2/2024**''))
   \<and> formatNotificationEmbed flags_on host_west due_action
     \<noteq> formatNotificationEmbed flags_on host_east due_action"
  by (simp add: due_action_def host_west_def host_east_def example_eval format_eval js_eval)

subsection \<open>Consecutive failures\<close>





subsection \<open>What a tick delivers\<close>

lemma hashes_of_absent: "\<not> map_has sn c \<Longrightarrow> hashes_of sn c = []"
  by (simp add: map_has_def hashes_of_def map_get_def map_of_eq_None_iff [THEN iffD2])

lemma processAction_cases:
  assumes "processAction env pf b ok a (p, ch, dlog) = (r, p', ch', dlog')"
  shows "(\<not> r \<and> p' = p \<and> ch' = ch \<and> dlog' = dlog) \<or>
    (r \<and> (\<exists>tid msgs e. truthy (card_id a) \<and> findThreadByCardId b (toStr (card_id a)) = Some tid
        \<and> tid \<noteq> [] \<and> ch tid = Some msgs \<and> formatNotificationEmbed env pf a = Some e
        \<and> createContentHash e \<notin> set (hashes_of (sentNotifications p) (toStr (card_id a)))
        \<and> ok a
        \<and> p' = p\<lparr>sentNotifications :=
                    cache_add (toStr (card_id a)) (createContentHash e) (sentNotifications p)\<rparr>
        \<and> ch' = ch(tid \<mapsto> posted e # msgs)
        \<and> dlog' = dlog @ [\<lparr>d_thread = tid, d_card = toStr (card_id a), d_action = a,
                              d_embed = e\<rparr>]))"
  using assms hashes_of_absent [of "sentNotifications p" "toStr (card_id a)"]
  by (auto simp: processAction_def Let_def split: option.splits if_splits)

lemma process_step_cases:
  assumes "process_step env pf b ok a (p, ch, dlog) = (p', ch', dlog')"
  shows "(p' = p \<and> ch' = ch \<and> dlog' = dlog) \<or>
    (\<exists>tid msgs e. truthy (card_id a) \<and> findThreadByCardId b (toStr (card_id a)) = Some tid
        \<and> tid \<noteq> [] \<and> ch tid = Some msgs \<and> formatNotificationEmbed env pf a = Some e
        \<and> createContentHash e \<notin> set (hashes_of (sentNotifications p) (toStr (card_id a)))
        \<and> ok a
        \<and> p' = p\<lparr>sentNotifications :=
                    cache_add (toStr (card_id a)) (createContentHash e) (sentNotifications p),
                  processedActions := set_add (aid a) (processedActions p)\<rparr>
        \<and> ch' = ch(tid \<mapsto> posted e # msgs)
        \<and> dlog' = dlog @ [\<lparr>d_thread = tid, d_card = toStr (card_id a), d_action = a,
                              d_embed = e\<rparr>])"
proof -
  obtain r p1 ch1 dlog1 where pa: "processAction env pf b ok a (p, ch, dlog) = (r, p1, ch1, dlog1)"
    by (metis prod_cases4)
  from processAction_cases [OF pa] assms pa show ?thesis
    by (auto simp: process_step_def)
qed

lemma fold_process_step_log:
  "\<exists>new. snd (snd (fold (process_step env pf b ok) as (p, ch, dlog))) = dlog @ new
      \<and> subseq (map d_action new) as
      \<and> (\<forall>d \<in> set new. formatNotificationEmbed env pf (d_action d) \<noteq> None)
      \<and> set (processedActions (fst (fold (process_step env pf b ok) as (p, ch, dlog))))
          \<subseteq> set (processedActions p) \<union> aid ` d_action ` set new"
proof (induction as arbitrary: p ch dlog)
  case Nil
  show ?case by simp
next
  case (Cons a as)
  obtain p1 ch1 dlog1 where st: "process_step env pf b ok a (p, ch, dlog) = (p1, ch1, dlog1)"
    by (metis prod_cases3)
  from Cons.IH [of p1 ch1 dlog1] obtain new where
    n: "snd (snd (fold (process_step env pf b ok) as (p1, ch1, dlog1))) = dlog1 @ new"
       "subseq (map d_action new) as"
       "\<forall>d \<in> set new. formatNotificationEmbed env pf (d_action d) \<noteq> None"
       "set (processedActions (fst (fold (process_step env pf b ok) as (p1, ch1, dlog1))))
          \<subseteq> set (processedActions p1) \<union> aid ` d_action ` set new"
    by blast
  from process_step_cases [OF st] show ?case
  proof
    assume "p1 = p \<and> ch1 = ch \<and> dlog1 = dlog"
    with n st show ?thesis
      by (intro exI [of _ new]) (auto simp: subseq_Cons')
  next
    assume "\<exists>tid msgs e. truthy (card_id a) \<and> findThreadByCardId b (toStr (card_id a)) = Some tid
        \<and> tid \<noteq> [] \<and> ch tid = Some msgs \<and> formatNotificationEmbed env pf a = Some e
        \<and> createContentHash e \<notin> set (hashes_of (sentNotifications p) (toStr (card_id a)))
        \<and> ok a
        \<and> p1 = p\<lparr>sentNotifications :=
                    cache_add (toStr (card_id a)) (createContentHash e) (sentNotifications p),
                  processedActions := set_add (aid a) (processedActions p)\<rparr>
        \<and> ch1 = ch(tid \<mapsto> posted e # msgs)
        \<and> dlog1 = dlog @ [\<lparr>d_thread = tid, d_card = toStr (card_id a), d_action = a,
                              d_embed = e\<rparr>]"
    then obtain tid e where
      d: "formatNotificationEmbed env pf a = Some e"
         "processedActions p1 = set_add (aid a) (processedActions p)"
         "dlog1 = dlog @ [\<lparr>d_thread = tid, d_card = toStr (card_id a), d_action = a,
                            d_embed = e\<rparr>]"
      by auto
    let ?d = "\<lparr>d_thread = tid, d_card = toStr (card_id a), d_action = a, d_embed = e\<rparr>"
    from n st d show ?thesis
      by (intro exI [of _ "?d # new"]) (auto simp: set_add_def split: if_splits)
  qed
qed

lemma subseq_sorted_map:
  assumes "subseq xs ys" and "sorted (map f ys)"
  shows "sorted (map f xs)"
proof -
  from assms(1) have "subseq (map f xs) (map f ys)" by (rule subseq_map)
  then obtain N where "map f xs = nths (map f ys) N" by (auto simp: subseq_conv_nths)
  with assms(2) show ?thesis by (simp add: sorted_nths)
qed

lemma subseq_set_sub: "subseq xs ys \<Longrightarrow> set xs \<subseteq> set ys"
  by (auto simp: subseq_conv_nths dest: in_set_nthsD)

lemma cleanupOldData_processed:
  "set (processedActions (cleanupOldData p)) \<subseteq> set (processedActions p)"
  by (auto simp: cleanupOldData_def Let_def slice_last_def dest: in_set_dropD)

lemma tick_deliveries_subseq:
  "subseq (map d_action (tick_deliveries env pf b now actions ok p ch))
          (sort_key adate (filter (\<lambda>a. aid a \<notin> set (processedActions p)) actions))
     \<and> (\<forall>d \<in> set (tick_deliveries env pf b now actions ok p ch).
            formatNotificationEmbed env pf (d_action d) \<noteq> None)
     \<and> set (processedActions (fst (checkForUpdates env pf b now (Some actions) ok (p, ch, []))))
          \<subseteq> set (processedActions p)
            \<union> aid ` d_action ` set (tick_deliveries env pf b now actions ok p ch)"
proof (cases "filter (\<lambda>a. aid a \<notin> set (processedActions p)) actions = []")
  case True
  then show ?thesis
    by (simp add: tick_deliveries_def checkForUpdates_def)
next
  case False
  let ?p1 = "p\<lparr>consecutiveErrors := 0\<rparr>"
  let ?sorted = "sort_key adate (filter (\<lambda>a. aid a \<notin> set (processedActions p)) actions)"
  let ?f = "fold (process_step env pf b ok) ?sorted (?p1, ch, [])"
  from fold_process_step_log [of env pf b ok ?sorted ?p1 ch "[]"]
  obtain new where n: "snd (snd ?f) = new" "subseq (map d_action new) ?sorted"
    "\<forall>d \<in> set new. formatNotificationEmbed env pf (d_action d) \<noteq> None"
    "set (processedActions (fst ?f)) \<subseteq> set (processedActions p) \<union> aid ` d_action ` set new"
    by auto
  have res: "checkForUpdates env pf b now (Some actions) ok (p, ch, [])
     = ((cleanupOldData (fst ?f))\<lparr>lastCheckTime := now\<rparr>, fst (snd ?f), snd (snd ?f))"
    using False by (simp add: checkForUpdates_def Let_def split: prod.splits)
  show ?thesis
    using n cleanupOldData_processed [of "fst ?f"]
    by (simp add: tick_deliveries_def res)
qed

text \<open>
  C2, as the code has it. The notifications of one tick go out sorted by timestamp
  ascending, and actions with equal timestamps go out in the order in which the response
  listed them: the sort is stable and compares nothing but the dates.
\<close>

theorem deliveries_in_stable_timestamp_order:
  "sorted (map adate (map d_action (tick_deliveries env pf b now actions sendOk p ch)))
   \<and> (\<forall>t. subseq (filter (\<lambda>a. adate a = t)
                     (map d_action (tick_deliveries env pf b now actions sendOk p ch)))
                  (filter (\<lambda>a. adate a = t) actions))"
proof -
  let ?new = "filter (\<lambda>a. aid a \<notin> set (processedActions p)) actions"
  let ?ds = "map d_action (tick_deliveries env pf b now actions sendOk p ch)"
  from tick_deliveries_subseq [of env pf b now actions sendOk p ch]
  have sub: "subseq ?ds (sort_key adate ?new)" by simp
  have "sorted (map adate ?ds)"
    by (rule subseq_sorted_map [OF sub]) simp
  moreover have "subseq (filter (\<lambda>a. adate a = t) ?ds) (filter (\<lambda>a. adate a = t) actions)" for t
  proof -
    have "subseq (filter (\<lambda>a. adate a = t) ?ds) (filter (\<lambda>a. adate a = t) (sort_key adate ?new))"
      using sub by (rule subseq_filter)
    also have "filter (\<lambda>a. adate a = t) (sort_key adate ?new) = filter (\<lambda>a. adate a = t) ?new"
      by (rule sort_key_stable)
    finally have "subseq (filter (\<lambda>a. adate a = t) ?ds) (filter (\<lambda>a. adate a = t) ?new)" .
    moreover have "subseq (filter (\<lambda>a. adate a = t) ?new) (filter (\<lambda>a. adate a = t) actions)"
      by (rule subseq_filter) simp
    ultimately show ?thesis by (rule subseq_order.trans)
  qed
  ultimately show ?thesis by simp
qed

text \<open>
  The claim as the specification words it fails: two actions of one timestamp whose
  identifiers are \<open>b\<close> and \<open>a\<close>, listed in that order, are delivered in that order.
\<close>

theorem tie_by_identifier_counterexample:
  "map aid (map d_action (tick_deliveries flags_on example_platform example_bot 100
      [example_action ''b'' ''commentCard'' 5 ''c1'',
       example_action ''a'' ''addMemberToCard'' 5 ''c1'']
      always_ok (new_poller 60 0) example_channels)) = [u ''b'', u ''a'']
   \<and> adate (example_action ''b'' ''commentCard'' 5 ''c1'')
       = adate (example_action ''a'' ''addMemberToCard'' 5 ''c1'')
   \<and> ord_class.lexordp (u ''a'') (u ''b'')"
  by (simp add: example_eval format_eval poller_eval js_eval)

subsection \<open>Actions whose flag is off\<close>

lemma disabled_flag_no_embed:
  assumes "flag_of a = Some name" and "\<not> flag_on env name"
  shows "formatNotificationEmbed env pf a = None"
proof -
  consider
      (label_added) "atype a = u ''addLabelToCard''" "name = ''NOTIFY_LABEL_CHANGES''"
    | (label_removed) "atype a = u ''removeLabelFromCard''" "name = ''NOTIFY_LABEL_CHANGES''"
    | (checklist_added) "atype a = u ''addChecklistToCard''" "name = ''NOTIFY_CHECKLIST_CHANGES''"
    | (item_state) "atype a = u ''updateCheckItemStateOnCard''" "name = ''NOTIFY_CHECKLIST_CHANGES''"
    | (member_added) "atype a = u ''addMemberToCard''" "name = ''NOTIFY_MEMBER_CHANGES''"
    | (member_removed) "atype a = u ''removeMemberFromCard''" "name = ''NOTIFY_MEMBER_CHANGES''"
    | (comment) "atype a = u ''commentCard''" "name = ''NOTIFY_COMMENT_CHANGES''"
    | (due) "atype a = u ''updateCard''" "old_due a \<noteq> Undefined \<or> card_due a \<noteq> Undefined"
        "name = ''NOTIFY_DUE_DATE_CHANGES''"
    using assms(1) unfolding flag_of_def by (auto split: if_splits)
  then have "switch_type env pf a = ReturnNull"
  proof cases
    case label_added
    with assms(2) show ?thesis by (simp add: switch_type_def u_def)
  next
    case label_removed
    with assms(2) show ?thesis by (simp add: switch_type_def u_def)
  next
    case checklist_added
    with assms(2) show ?thesis by (simp add: switch_type_def u_def)
  next
    case item_state
    with assms(2) show ?thesis by (simp add: switch_type_def u_def)
  next
    case member_added
    with assms(2) show ?thesis by (simp add: switch_type_def u_def)
  next
    case member_removed
    with assms(2) show ?thesis by (simp add: switch_type_def u_def)
  next
    case comment
    with assms(2) show ?thesis by (simp add: switch_type_def u_def)
  next
    case due
    with assms(2) show ?thesis by (simp add: switch_type_def u_def)
  qed
  then show ?thesis by (simp add: formatNotificationEmbed_def)
qed

text \<open>
  C4, as the code has it. An action whose flag is off is not delivered, and its identifier
  is not added to \<open>processedActions\<close>: the poller adds an identifier only after a successful
  send. (Identifiers are unique within a response.)
\<close>

theorem disabled_flag_not_delivered_not_processed:
  assumes "flag_of a = Some name" and "\<not> flag_on env name"
    and "aid a \<notin> set (processedActions p)"
    and "a \<in> set actions" and "distinct (map aid actions)"
  shows "a \<notin> d_action ` set (tick_deliveries env pf b now actions sendOk p ch)
    \<and> aid a \<notin> set (processedActions
                    (fst (checkForUpdates env pf b now (Some actions) sendOk (p, ch, []))))"
proof -
  let ?ds = "tick_deliveries env pf b now actions sendOk p ch"
  from tick_deliveries_subseq [of env pf b now actions sendOk p ch]
  have sub: "subseq (map d_action ?ds)
          (sort_key adate (filter (\<lambda>a. aid a \<notin> set (processedActions p)) actions))"
    and emb: "\<forall>d \<in> set ?ds. formatNotificationEmbed env pf (d_action d) \<noteq> None"
    and proc: "set (processedActions
                     (fst (checkForUpdates env pf b now (Some actions) sendOk (p, ch, []))))
          \<subseteq> set (processedActions p) \<union> aid ` d_action ` set ?ds"
    by simp_all
  have none: "formatNotificationEmbed env pf a = None"
    by (rule disabled_flag_no_embed [OF assms(1,2)])
  have notin: "a \<notin> d_action ` set ?ds"
    using emb none by auto
  have "set (map d_action ?ds) \<subseteq> set actions"
    using subseq_set_sub [OF sub] by auto
  then have "\<forall>d \<in> set ?ds. aid (d_action d) = aid a \<longrightarrow> d_action d = a"
    using assms(4,5) by (auto simp: distinct_map inj_on_def)
  with notin have "aid a \<notin> aid ` d_action ` set ?ds" by auto
  with proc assms(3) notin show ?thesis by auto
qed

theorem disabled_flag_not_delivered_not_processed_witness:
  "example_action ''a1'' ''addLabelToCard'' 5 ''c1''
     \<notin> d_action ` set (tick_deliveries flags_off example_platform example_bot 100
          [example_action ''a1'' ''addLabelToCard'' 5 ''c1''] always_ok (new_poller 60 0)
          example_channels)
   \<and> aid (example_action ''a1'' ''addLabelToCard'' 5 ''c1'')
     \<notin> set (processedActions (fst (checkForUpdates flags_off example_platform example_bot 100
          (Some [example_action ''a1'' ''addLabelToCard'' 5 ''c1'']) always_ok
          (new_poller 60 0, example_channels, []))))"
proof -
  have h1: "flag_of (example_action ''a1'' ''addLabelToCard'' 5 ''c1'') = Some ''NOTIFY_LABEL_CHANGES''"
    by (simp add: flag_of_def example_action_def)
  have h2: "\<not> flag_on flags_off ''NOTIFY_LABEL_CHANGES''"
    by (simp add: flag_on_def flags_off_def)
  have h3: "aid (example_action ''a1'' ''addLabelToCard'' 5 ''c1'')
      \<notin> set (processedActions (new_poller 60 0))"
    by (simp add: new_poller_def)
  have h4: "example_action ''a1'' ''addLabelToCard'' 5 ''c1''
      \<in> set [example_action ''a1'' ''addLabelToCard'' 5 ''c1'']"
    by simp
  have h5: "distinct (map aid [example_action ''a1'' ''addLabelToCard'' 5 ''c1''])"
    by simp
  show ?thesis
    using disabled_flag_not_delivered_not_processed [OF h1 h2 h3 h4 h5] .
qed

text \<open>
  The scenario of the specification, where the claim fails: the label flag is off, the tick
  returns \<open>a1\<close> of type \<open>addLabelToCard\<close> for a bound card, and afterwards \<open>a1\<close> is not in
  \<open>processedActions\<close>.
\<close>

theorem disabled_flag_marked_processed_counterexample:
  "\<not> flag_on flags_off ''NOTIFY_LABEL_CHANGES''
   \<and> tick_deliveries flags_off example_platform example_bot 100
        [example_action ''a1'' ''addLabelToCard'' 5 ''c1''] always_ok (new_poller 60 0)
        example_channels = []
   \<and> u ''a1'' \<notin> set (processedActions (fst (checkForUpdates flags_off example_platform
        example_bot 100 (Some [example_action ''a1'' ''addLabelToCard'' 5 ''c1'']) always_ok
        (new_poller 60 0, example_channels, []))))"
  by (simp add: example_eval format_eval poller_eval js_eval)

section \<open>At most one delivery per card and content\<close>

subsection \<open>Maps and the cache\<close>





lemma set_set_add: "set (set_add x xs) = insert x (set xs)"
  by (auto simp: set_add_def)





subsection \<open>The start-up scan\<close>









subsection \<open>The invariant of a run\<close>












subsection \<open>A replay across restarts\<close>

lemma label_action_fields:
  "aid label_action = u ''a1''" "adate label_action = 5" "card_id label_action = Str (u ''c1'')"
  by (simp_all add: label_action_def example_action_def)

lemma label_action_embed:
  "formatNotificationEmbed flags_on example_platform label_action = Some label_notification"
  by (simp add: label_notification_def label_action_def example_eval format_eval js_eval)

lemma label_notification_hash: "createContentHash label_notification = u ''2047822189''"
  by (simp add: label_notification_def format_eval js_eval)

lemma label_notification_footer: "footer_text label_notification = u ''Trello''"
  by (simp add: label_notification_def mk_notification_def)

lemma posted_hash: "createContentHash (as_msg_embed e) = createContentHash e"
  by (simp add: createContentHash_def as_msg_embed_def)

lemma posted_fields:
  "author_bot (posted n)" "embeds (posted n) = [as_msg_embed n]"
  "footer (as_msg_embed n) = Str (footer_text n)"
  by (simp_all add: posted_def as_msg_embed_def)

lemma human_message_fields: "\<not> author_bot human_message"
  by (simp add: human_message_def)

lemma example_bot_lookup: "findThreadByCardId example_bot (u ''c1'') = Some (u ''t1'')"
  by (simp add: findThreadByCardId_def example_bot_def map_get_def)

lemma example_bot_map: "cardThreadMap example_bot = [(u ''c1'', u ''t1'')]"
  by (simp add: example_bot_def)

lemma u_nonempty: "u ''t1'' \<noteq> []" "u ''c1'' \<noteq> []"
  by (simp_all add: u_def)

lemma label_delivery_fields:
  "\<lparr>d_thread = u ''t1'', d_card = u ''c1'', d_action = label_action,
      d_embed = label_notification\<rparr> = label_delivery"
  "d_card label_delivery = u ''c1''" "d_embed label_delivery = label_notification"
  by (simp_all add: label_delivery_def)

lemmas replay_eval = label_action_fields label_action_embed label_notification_hash
  label_notification_footer posted_fields posted_hash human_message_fields example_bot_lookup
  example_bot_map u_nonempty label_delivery_fields always_ok_def example_channels_def
  is_notification_def scan_message_def scanThreadNotifications_def fetch_recent_def
  loadExistingNotifications_def scan_round_def scan_reads_def start_def run_def
  new_system_def delivered_pairs_def
  new_poller_def hashes_of_def cache_add_def processAction_def cleanupOldData_def
  process_step_def checkForUpdates_def Let_def set_add_def map_has_def map_get_def





text \<open>
  The scan is not awaited, so the first check of a restarted poller may come before the
  round of the scan that reads the thread. Then the replayed action is sent again although
  its first notification is the only message in the thread; the theorem promises nothing
  for this order of events.
\<close>

lemma first_check_before_scan:
  "delivered_pairs (run flags_on example_platform
      [Restart example_bot 0, Tick 1 (Some [label_action]) always_ok,
       Restart example_bot 2, Tick 3 (Some [label_action]) always_ok, ScanRound True]
      (new_system example_bot 60 0 example_channels))
    = [(u ''c1'', u ''2047822189''), (u ''c1'', u ''2047822189'')]"
  by (simp add: replay_eval)

section \<open>Properties of the orchestrator\<close>

subsection \<open>The two maps of the registry\<close>






lemma registry_ok_processing [simp]:
  "registry_ok (b\<lparr>processingThreads := x\<rparr>) = registry_ok b"
  by (simp add: registry_ok_def)









lemmas bot_eval = createNewThreadCard_def find_or_create_def handleNewThread_def
  findExistingCard_def set_both_def new_bot_def card_of_def cardName_def
  creation_fails_def no_card_found_def example_thread_def search_fails_def
  search_and_create_fail_def forum_env_def env_val_def in_forum_def fire_all_def



subsection \<open>Failures while a card is found or created\<close>

text \<open>
  C5, as the code has it. On an unmapped thread for which no card is found (the search
  fails, which \<open>findExistingCard\<close> turns into "no card", or it finds none), a failing card
  creation aborts the sync of that trigger and publishes nothing: both maps and the board
  side are as before and the thread is not left in \<open>processingThreads\<close>, so a later trigger
  starts from scratch. \<open>createNewThreadCard\<close> throws, but \<open>handleNewThread\<close> catches and
  logs the error: its own caller sees a normal return.
\<close>

theorem creation_failure_publishes_nothing:
  assumes "map_get (threadCardMap b) (thread_id thread) = None"
    and "no_card_found oc thread"
    and "creation_fails oc"
  shows "fst (handleNewThread pf oc thread (b, w)) = Inr ()
    \<and> threadCardMap (fst (snd (handleNewThread pf oc thread (b, w)))) = threadCardMap b
    \<and> cardThreadMap (fst (snd (handleNewThread pf oc thread (b, w)))) = cardThreadMap b
    \<and> thread_id thread \<notin> set (processingThreads (fst (snd (handleNewThread pf oc thread (b, w)))))
    \<and> snd (snd (handleNewThread pf oc thread (b, w))) = w
    \<and> fst (createNewThreadCard pf oc thread (b, w)) \<noteq> Inr ()
    \<and> processExistingThread pf oc thread (b, w) = (Inr (), b, w)"
proof -
  have nohas: "\<not> map_has (threadCardMap b) (thread_id thread)"
    using assms(1) by (simp add: map_has_def map_get_def map_of_eq_None_iff)
  have cr: "createNewThreadCard pf oc thread s = (Inl CardCreationFailed, s)
       \<or> createNewThreadCard pf oc thread s = (Inl InvalidCardData, s)" for s
    using assms(3)
    by (cases s) (auto simp: createNewThreadCard_def creation_fails_def split: create_outcome.splits)
  have fc: "find_or_create pf oc thread s = createNewThreadCard pf oc thread s" for s
    using assms(2)
    by (cases s) (auto simp: find_or_create_def no_card_found_def split: option.splits)
  let ?b1 = "b\<lparr>processingThreads := set_add (thread_id thread) (processingThreads b)\<rparr>"
  from cr [of "(?b1, w)"] fc [of "(?b1, w)"]
  obtain r where "find_or_create pf oc thread (?b1, w) = (r, ?b1, w)" by auto
  then have h: "handleNewThread pf oc thread (b, w)
      = (Inr (), ?b1\<lparr>processingThreads := set_delete (thread_id thread) (processingThreads ?b1)\<rparr>, w)"
    using assms(1) nohas
    by (simp add: handleNewThread_def)
  from cr [of "(b, w)"] have c: "fst (createNewThreadCard pf oc thread (b, w)) \<noteq> Inr ()" by auto
  from cr [of "(b, w)"] fc [of "(b, w)"]
  have e: "processExistingThread pf oc thread (b, w) = (Inr (), b, w)"
    by (auto simp: processExistingThread_def)
  from c e show ?thesis
    by (simp add: h set_delete_def)
qed

theorem creation_failure_publishes_nothing_witness:
  "fst (handleNewThread example_platform search_and_create_fail example_thread
          (new_bot, example_world)) = Inr ()
   \<and> threadCardMap (fst (snd (handleNewThread example_platform search_and_create_fail
          example_thread (new_bot, example_world)))) = []
   \<and> cardThreadMap (fst (snd (handleNewThread example_platform search_and_create_fail
          example_thread (new_bot, example_world)))) = []
   \<and> snd (snd (handleNewThread example_platform search_and_create_fail
          example_thread (new_bot, example_world))) = example_world"
proof -
  have h1: "map_get (threadCardMap new_bot) (thread_id example_thread) = None"
    by (simp add: new_bot_def map_get_def)
  have h2: "no_card_found search_and_create_fail example_thread"
    by (simp add: no_card_found_def search_and_create_fail_def findExistingCard_def)
  have h3: "creation_fails search_and_create_fail"
    by (simp add: creation_fails_def search_and_create_fail_def)
  from creation_failure_publishes_nothing [OF h1 h2 h3, of example_platform example_world]
  show ?thesis by (simp add: new_bot_def)
qed

text \<open>
  The claim as the specification words it fails for a failing search: the handler returns
  normally, creates a card and publishes the mapping.
\<close>

theorem search_failure_counterexample:
  "search search_fails = None
   \<and> fst (handleNewThread example_platform search_fails example_thread
            (new_bot, example_world)) = Inr ()
   \<and> map_get (threadCardMap (fst (snd (handleNewThread example_platform search_fails
            example_thread (new_bot, example_world))))) (u ''t1'') = Some (u ''c9'')"
  by (simp add: bot_eval js_eval set_delete_def)

section \<open>Properties of the reconciler and the aggregator\<close>

subsection \<open>One pass\<close>

lemma fresh_calls_append:
  "fresh_calls urls names (xs @ ys)
     = (fresh_calls urls names xs
        \<and> fresh_calls (rev (map call_base (successful xs)) @ urls)
              (rev (map ac_name (successful_named xs)) @ names) ys)"
  by (induction xs arbitrary: urls names) (auto simp: successful_def successful_named_def)

lemma fresh_calls_snoc:
  "fresh_calls urls names (cs @ [c])
     = (fresh_calls urls names cs
        \<and> call_base c \<notin> set urls \<union> call_base ` set (successful cs)
        \<and> (ac_origin c = FromContent
             \<or> ac_name c \<notin> set names \<union> ac_name ` set (successful_named cs)))"
  by (auto simp: fresh_calls_append)


lemma seed_fold_inv:
  "set (existingUrls st0) \<supseteq> A \<Longrightarrow> set (existingNames st0) \<supseteq> B \<Longrightarrow> calls st0 = [] \<Longrightarrow>
   (let st = fold (\<lambda>(att_url', att_name') st.
             st\<lparr>existingUrls := set_add (base_url att_url') (set_add att_url' (existingUrls st)),
                existingNames := set_add att_name' (existingNames st)\<rparr>) xs st0
    in A \<union> base_url ` fst ` set xs \<subseteq> set (existingUrls st) \<and> B \<union> snd ` set xs \<subseteq> set (existingNames st)
       \<and> calls st = [])"
proof (induction xs arbitrary: st0 A B)
  case Nil
  then show ?case by simp
next
  case (Cons x xs)
  obtain a n where x: "x = (a, n)" by (cases x)
  let ?st1 = "st0\<lparr>existingUrls := set_add (base_url a) (set_add a (existingUrls st0)),
                existingNames := set_add n (existingNames st0)\<rparr>"
  have "set (existingUrls ?st1) \<supseteq> insert (base_url a) A" "set (existingNames ?st1) \<supseteq> insert n B"
    "calls ?st1 = []"
    using Cons.prems by (auto simp: set_set_add)
  from Cons.IH [OF this] show ?case
    by (simp add: x Let_def)
qed

lemma seed_existing_inv: "recon_inv existing (seed_existing existing)"
  using seed_fold_inv [of "{}" "\<lparr>existingUrls = [], existingNames = [], processedUrls = [],
      processedNames = [], calls = []\<rparr>" "{}" existing]
  by (simp add: seed_existing_def recon_inv_def Let_def successful_def successful_named_def)

lemma recon_inv_add:
  assumes inv: "recon_inv existing st"
    and fresh: "call_base c \<notin> set (existingUrls st)"
    and named: "ac_origin c \<noteq> FromContent \<Longrightarrow> ac_name c \<notin> set (existingNames st)"
    and urls: "set (existingUrls st) \<subseteq> set (existingUrls st')"
       "ac_ok c \<Longrightarrow> call_base c \<in> set (existingUrls st')"
    and names: "set (existingNames st) \<subseteq> set (existingNames st')"
       "ac_ok c \<and> ac_origin c \<noteq> FromContent \<Longrightarrow> ac_name c \<in> set (existingNames st')"
    and calls: "calls st' = calls st @ [c]"
  shows "recon_inv existing st'"
proof -
  let ?S = "successful (calls st)" and ?N = "successful_named (calls st)"
  from inv have
    i1: "call_base ` set ?S \<subseteq> set (existingUrls st)" and
    i2: "base_url ` fst ` set existing \<subseteq> set (existingUrls st)" and
    i3: "distinct (map call_base ?S)" and
    i4: "call_base ` set ?S \<inter> base_url ` fst ` set existing = {}" and
    i5: "ac_name ` set ?N \<subseteq> set (existingNames st)" and
    i6: "snd ` set existing \<subseteq> set (existingNames st)" and
    i7: "distinct (map ac_name ?N)" and
    i8: "ac_name ` set ?N \<inter> snd ` set existing = {}" and
    i9: "fresh_calls (map base_url (map fst existing)) (map snd existing) (calls st)"
    by (simp_all add: recon_inv_def)
  have S': "successful (calls st') = (if ac_ok c then ?S @ [c] else ?S)"
    by (simp add: successful_def calls)
  have N': "successful_named (calls st')
      = (if ac_ok c \<and> ac_origin c \<noteq> FromContent then ?N @ [c] else ?N)"
    by (simp add: successful_named_def calls)
  have n1: "call_base ` set (successful (calls st')) \<subseteq> set (existingUrls st')"
    using i1 urls by (auto simp: S')
  have n2: "base_url ` fst ` set existing \<subseteq> set (existingUrls st')"
    using i2 urls(1) by blast
  have f1: "call_base c \<notin> call_base ` set ?S" using i1 fresh by blast
  then have n3: "distinct (map call_base (successful (calls st')))"
    using i3 by (simp add: S')
  have f2: "call_base c \<notin> base_url ` fst ` set existing" using i2 fresh by blast
  then have n4: "call_base ` set (successful (calls st')) \<inter> base_url ` fst ` set existing = {}"
    using i4 by (auto simp: S')
  have n5: "ac_name ` set (successful_named (calls st')) \<subseteq> set (existingNames st')"
    using i5 names by (auto simp: N')
  have n6: "snd ` set existing \<subseteq> set (existingNames st')"
    using i6 names(1) by blast
  have f3: "ac_name c \<notin> ac_name ` set ?N" if "ac_origin c \<noteq> FromContent"
    using named [OF that] i5 by blast
  have f4: "ac_name c \<notin> snd ` set existing" if "ac_origin c \<noteq> FromContent"
    using named [OF that] i6 by blast
  have n7: "distinct (map ac_name (successful_named (calls st')))"
    using i7 f3 by (auto simp: N')
  have n8: "ac_name ` set (successful_named (calls st')) \<inter> snd ` set existing = {}"
    using i8 f4 by (auto simp: N')
  have n9: "fresh_calls (map base_url (map fst existing)) (map snd existing) (calls st')"
    unfolding calls fresh_calls_snoc using i9 f1 f2 f3 f4 by auto
  from n1 n2 n3 n4 n5 n6 n7 n8 n9 show ?thesis
    by (simp add: recon_inv_def)
qed

lemma recon_inv_failed:
  assumes "recon_inv existing st" and "\<not> ac_ok c"
    and "call_base c \<notin> set (existingUrls st)"
    and "ac_origin c \<noteq> FromContent \<Longrightarrow> ac_name c \<notin> set (existingNames st)"
  shows "recon_inv existing (st\<lparr>calls := calls st @ [c]\<rparr>)"
  by (rule recon_inv_add [OF assms(1,3,4)]) (use assms(2) in simp_all)

lemma add_named_inv:
  assumes "recon_inv existing st" and "org \<noteq> FromContent"
  shows "recon_inv existing (add_named ok cardId org url' name st)"
proof (cases "\<not> isDuplicateUrl st url' (base_url url') \<and> \<not> isDuplicateName st name")
  case False
  with assms(1) show ?thesis by (auto simp: add_named_def Let_def)
next
  case True
  then have fresh: "base_url url' \<notin> set (existingUrls st)" "name \<notin> set (existingNames st)"
    by (auto simp: isDuplicateUrl_def isDuplicateName_def)
  show ?thesis
  proof (cases "ok (length (calls st))")
    case False
    let ?c = "\<lparr>ac_card = cardId, ac_url = url', ac_name = name, ac_origin = org, ac_ok = False\<rparr>"
    have "recon_inv existing (st\<lparr>calls := calls st @ [?c]\<rparr>)"
      by (rule recon_inv_failed [OF assms(1)]) (use fresh in \<open>simp_all add: call_base_def\<close>)
    with True False show ?thesis
      by (simp add: add_named_def Let_def)
  next
    case ok: True
    let ?c = "\<lparr>ac_card = cardId, ac_url = url', ac_name = name, ac_origin = org, ac_ok = True\<rparr>"
    let ?st' = "st\<lparr>processedUrls := set_add (base_url url') (set_add url' (processedUrls st)),
           processedNames := set_add name (processedNames st),
           existingUrls := set_add (base_url url') (set_add url' (existingUrls st)),
           existingNames := set_add name (existingNames st),
           calls := calls st @ [?c]\<rparr>"
    have st': "add_named ok cardId org url' name st = ?st'"
      using True ok by (simp add: add_named_def Let_def)
    have "recon_inv existing ?st'"
      by (rule recon_inv_add [OF assms(1), where c = ?c])
        (use fresh in \<open>auto simp: call_base_def set_set_add\<close>)
    then show ?thesis by (simp only: st')
  qed
qed

lemma process_url_inv:
  assumes "recon_inv existing st"
  shows "recon_inv existing (process_url ok cardId url' st)"
proof (cases "\<not> isDuplicateUrl st url' (base_url url')")
  case False
  with assms(1) show ?thesis by (auto simp: process_url_def Let_def)
next
  case True
  then have fresh: "base_url url' \<notin> set (existingUrls st)"
    by (auto simp: isDuplicateUrl_def)
  show ?thesis
  proof (cases "ok (length (calls st))")
    case False
    let ?c = "\<lparr>ac_card = cardId, ac_url = url', ac_name = u ''Shared Link'',
               ac_origin = FromContent, ac_ok = False\<rparr>"
    have "recon_inv existing (st\<lparr>calls := calls st @ [?c]\<rparr>)"
      by (rule recon_inv_failed [OF assms(1)]) (use fresh in \<open>simp_all add: call_base_def\<close>)
    with True False show ?thesis
      by (simp add: process_url_def Let_def)
  next
    case ok: True
    let ?c = "\<lparr>ac_card = cardId, ac_url = url', ac_name = u ''Shared Link'',
               ac_origin = FromContent, ac_ok = True\<rparr>"
    let ?st' = "st\<lparr>processedUrls := set_add (base_url url') (set_add url' (processedUrls st)),
           existingUrls := set_add (base_url url') (set_add url' (existingUrls st)),
           calls := calls st @ [?c]\<rparr>"
    have st': "process_url ok cardId url' st = ?st'"
      using True ok by (simp add: process_url_def Let_def)
    have "recon_inv existing ?st'"
      by (rule recon_inv_add [OF assms(1), where c = ?c])
        (use fresh in \<open>auto simp: call_base_def set_set_add\<close>)
    then show ?thesis by (simp only: st')
  qed
qed

lemma fold_inv:
  assumes "\<And>x st. P st \<Longrightarrow> P (f x st)"
  shows "P st \<Longrightarrow> P (fold f xs st)"
  by (induction xs arbitrary: st) (simp_all add: assms)

lemma process_message_inv:
  assumes "recon_inv existing st"
  shows "recon_inv existing (process_message ok cardId message st)"
proof -
  have a: "recon_inv existing (fold (process_attachment ok cardId) (attachments message) st)"
    using assms by (rule fold_inv [rotated]) (simp add: process_attachment_def add_named_inv)
  have e: "recon_inv existing (fold (process_embed ok cardId) (embeds message)
      (fold (process_attachment ok cardId) (attachments message) st))"
    using a by (rule fold_inv [rotated])
      (auto simp: process_embed_def add_named_inv split: option.splits)
  show ?thesis
    unfolding process_message_def
    using e by (rule fold_inv [rotated]) (simp add: process_url_inv)
qed

lemma reconcile_inv:
  "recon_inv existing (fold (process_message ok cardId) messages (seed_existing existing))"
  using seed_existing_inv by (rule fold_inv [rotated]) (simp add: process_message_inv)

text \<open>
  C6, as amended. Within one pass, whatever the messages, the attachments already on the
  card and the outcomes of the calls: no \<open>addAttachment\<close> call is issued for a candidate
  whose base url is on the card or was added earlier in the pass, and none for an
  attachment or an embed whose name is on the card or was added earlier in the pass for an
  attachment or an embed. So the successful calls have pairwise different base urls, none
  of them a base url already on the card; and the successful calls for attachments and
  embeds have pairwise different names, none of them a name already on the card. Nothing of
  the kind holds for the names of bare links: they are all added as \<open>Shared Link\<close>, a name
  the code neither looks up nor records.
\<close>

theorem pass_repeats_no_base_url_and_no_attachment_name:
  "fresh_calls (map base_url (map fst existing)) (map snd existing)
     (reconcile ok cardId messages existing)
   \<and> distinct (map call_base (successful (reconcile ok cardId messages existing)))
   \<and> call_base ` set (successful (reconcile ok cardId messages existing))
       \<inter> base_url ` fst ` set existing = {}
   \<and> distinct (map ac_name (successful_named (reconcile ok cardId messages existing)))
   \<and> ac_name ` set (successful_named (reconcile ok cardId messages existing))
       \<inter> snd ` set existing = {}"
  using reconcile_inv [of existing ok cardId messages]
  by (simp add: recon_inv_def reconcile_def)

lemma fetch_pages_filter: "fetch_pages msgs = filter (\<lambda>msg. \<not> author_bot msg) msgs"
proof (induction msgs rule: fetch_pages.induct)
  case (1 msgs)
  show ?case
  proof (cases "msgs = []")
    case True
    then show ?thesis by (simp add: fetch_pages.simps)
  next
    case False
    then have ne: "\<not> length (take 100 msgs) = 0" by simp
    from "1.IH" [OF refl ne]
    have ih: "fetch_pages (drop 100 msgs) = filter (\<lambda>msg. \<not> author_bot msg) (drop 100 msgs)" .
    have "fetch_pages msgs = filter (\<lambda>msg. \<not> author_bot msg) (take 100 msgs)
        @ fetch_pages (drop 100 msgs)"
      using False by (subst fetch_pages.simps) (simp add: Let_def)
    also have "\<dots> = filter (\<lambda>msg. \<not> author_bot msg) (take 100 msgs @ drop 100 msgs)"
      by (simp only: ih filter_append)
    finally show ?thesis by (simp only: append_take_drop_id)
  qed
qed

lemmas recon_eval = reconcile_def passes_def updateCardWithAllMessages_def new_world_def
  attachment_world_def example_thread_def fetchAllThreadMessages_def fetch_pages_filter
  one_attachment_def two_links_def process_message_def process_attachment_def
  process_embed_def embed_candidate_def process_url_def add_named_def seed_existing_def
  isDuplicateUrl_def isDuplicateName_def base_url_def url_scheme_len_def starts_with_def
  is_space_def calls_for_def call_base_def successful_def successful_named_def ok_pass_def
  failing_add_def Let_def

text \<open>
  The theorem at a message with an attachment and a bare link to the same file under
  another query string: the attachment is added and the link is passed over.
\<close>

theorem pass_repeats_no_base_url_and_no_attachment_name_witness:
  "map ac_url (reconcile (addOk ok_pass) (u ''c9'') [attachment_and_link] [])
     = [u ''https://cdn.example.com/a.png?ex=1'']
   \<and> fresh_calls [] [] (reconcile (addOk ok_pass) (u ''c9'') [attachment_and_link] [])
   \<and> distinct (map call_base
         (successful (reconcile (addOk ok_pass) (u ''c9'') [attachment_and_link] [])))"
proof -
  have "map ac_url (reconcile (addOk ok_pass) (u ''c9'') [attachment_and_link] [])
     = [u ''https://cdn.example.com/a.png?ex=1'']"
    by (simp add: recon_eval attachment_and_link_def js_eval)
  with pass_repeats_no_base_url_and_no_attachment_name
    [of "[]" "addOk ok_pass" "u ''c9''" "[attachment_and_link]"]
  show ?thesis by simp
qed

text \<open>
  The claim as the specification words it fails for bare links: two different links in one
  message body are both added, under the same display name.
\<close>

theorem shared_link_name_counterexample:
  "map ac_name (successful (reconcile (addOk ok_pass) (u ''c9'') [two_links] []))
     = [u ''Shared Link'', u ''Shared Link'']
   \<and> map ac_url (successful (reconcile (addOk ok_pass) (u ''c9'') [two_links] []))
     = [u ''http://a.example/x'', u ''http://b.example/y'']"
  by (simp add: recon_eval js_eval)

subsection \<open>Several passes\<close>

lemma pass_cases:
  "(add_calls (updateCardWithAllMessages pf po thread cardId w) = add_calls w
      \<and> card_attachments (updateCardWithAllMessages pf po thread cardId w) = card_attachments w
      \<and> channels (updateCardWithAllMessages pf po thread cardId w) = channels w)
   \<or> (\<exists>msgs. channels w (thread_id thread) = Some msgs
      \<and> add_calls (updateCardWithAllMessages pf po thread cardId w)
          = add_calls w @ reconcile (addOk po) cardId (fetchAllThreadMessages msgs)
                            (card_attachments w cardId)
      \<and> card_attachments (updateCardWithAllMessages pf po thread cardId w)
          = (card_attachments w)
              (cardId := card_attachments w cardId
                 @ map (\<lambda>c. (ac_url c, ac_name c))
                     (successful (reconcile (addOk po) cardId (fetchAllThreadMessages msgs)
                        (card_attachments w cardId))))
      \<and> channels (updateCardWithAllMessages pf po thread cardId w) = channels w)"
  by (auto simp: updateCardWithAllMessages_def Let_def reconcile_def successful_def
      split: option.splits)







subsection \<open>The description\<close>

lemma getMediaTypeFromUrl_same:
  assumes "same_rendering pf1 pf2"
  shows "getMediaTypeFromUrl pf1 = getMediaTypeFromUrl pf2"
proof -
  from assms have e: "toLowerCase pf1 = toLowerCase pf2" by (simp add: same_rendering_def)
  show ?thesis by (intro ext) (simp only: getMediaTypeFromUrl_def e)
qed

lemma categorizeAttachments_same:
  assumes "same_rendering pf1 pf2"
  shows "categorizeAttachments pf1 = categorizeAttachments pf2"
proof -
  from assms have e: "toLowerCase pf1 = toLowerCase pf2" by (simp add: same_rendering_def)
  have c: "categorize_one pf1 = categorize_one pf2"
    by (intro ext) (simp only: categorize_one_def e)
  show ?thesis by (intro ext) (simp only: categorizeAttachments_def c)
qed

lemma formatMessageForCard_same:
  assumes "same_rendering pf1 pf2"
  shows "formatMessageForCard pf1 = formatMessageForCard pf2"
proof -
  from assms have e: "fmtStamp pf1 = fmtStamp pf2" by (simp add: same_rendering_def)
  show ?thesis
    by (intro ext)
      (simp only: formatMessageForCard_def e getMediaTypeFromUrl_same [OF assms]
         categorizeAttachments_same [OF assms])
qed

lemma groupMessagesByDate_same:
  assumes "same_rendering pf1 pf2"
  shows "groupMessagesByDate pf1 = groupMessagesByDate pf2"
proof -
  from assms have e: "fmtDay pf1 = fmtDay pf2" by (simp add: same_rendering_def)
  show ?thesis by (intro ext) (simp only: groupMessagesByDate_def e)
qed

lemma build_description_same:
  assumes "same_rendering pf1 pf2"
  shows "build_description pf1 thread messages = build_description pf2 thread messages"
proof -
  from assms have e: "fmtCreated pf1 = fmtCreated pf2" by (simp add: same_rendering_def)
  show ?thesis
    by (simp only: build_description_def e formatMessageForCard_same [OF assms]
        groupMessagesByDate_same [OF assms])
qed

text \<open>
  C8, as amended. On hosts that render dates the same way (the same time zone and locale
  data), a pass that gets as far as updating the card writes the description computed from
  the thread's metadata and its messages alone, and a second pass over the unchanged thread
  leaves the card with that same string, whatever else the two passes did (attachments
  added in between, remote calls failing in the second).
\<close>

theorem description_idempotent:
  assumes "channels w (thread_id thread) = Some msgs" and "fetchOk po1" and "updateOk po1"
    and "same_rendering pf1 pf2"
  shows "card_desc (updateCardWithAllMessages pf1 po1 thread cardId w) cardId
           = Some (build_description pf1 thread (fetchAllThreadMessages msgs))
    \<and> card_desc (updateCardWithAllMessages pf2 po2 thread cardId
                   (updateCardWithAllMessages pf1 po1 thread cardId w)) cardId
           = Some (build_description pf1 thread (fetchAllThreadMessages msgs))"
proof -
  let ?w1 = "updateCardWithAllMessages pf1 po1 thread cardId w"
  have first: "card_desc ?w1 cardId = Some (build_description pf1 thread (fetchAllThreadMessages msgs))"
    using assms(1,2,3) by (simp add: updateCardWithAllMessages_def Let_def)
  have ch: "channels ?w1 = channels w"
    using pass_cases [of pf1 po1 thread cardId w] by auto
  have "card_desc (updateCardWithAllMessages pf2 po2 thread cardId ?w1) cardId
      = card_desc ?w1 cardId
     \<or> card_desc (updateCardWithAllMessages pf2 po2 thread cardId ?w1) cardId
      = Some (build_description pf2 thread (fetchAllThreadMessages msgs))"
    using assms(1) unfolding updateCardWithAllMessages_def [of pf2 po2] ch
    by (simp add: Let_def)
  with first build_description_same [OF assms(4), of thread "fetchAllThreadMessages msgs"]
  show ?thesis by auto
qed

theorem description_idempotent_witness:
  "card_desc (updateCardWithAllMessages example_platform ok_pass example_thread (u ''c9'')
      attachment_world) (u ''c9'')
     = Some (build_description example_platform example_thread
               (fetchAllThreadMessages [one_attachment]))
   \<and> card_desc (updateCardWithAllMessages example_platform failing_add example_thread (u ''c9'')
        (updateCardWithAllMessages example_platform ok_pass example_thread (u ''c9'')
           attachment_world)) (u ''c9'')
     = Some (build_description example_platform example_thread
               (fetchAllThreadMessages [one_attachment]))"
proof -
  have h1: "channels attachment_world (thread_id example_thread) = Some [one_attachment]"
    by (simp add: attachment_world_def new_world_def example_thread_def)
  have h2: "fetchOk ok_pass" "updateOk ok_pass"
    by (simp_all add: ok_pass_def)
  have h3: "same_rendering example_platform example_platform"
    by (simp add: same_rendering_def)
  from description_idempotent [OF h1 h2 h3, of "u ''c9''" failing_add]
  show ?thesis .
qed

text \<open>
  The claim as the specification words it fails: the thread and its messages are the same,
  but the creation time is rendered in the time zone of the host, so passes on two hosts
  in different time zones write different descriptions.
\<close>

theorem other_zone_other_description:
  "card_desc (updateCardWithAllMessages clock_west ok_pass example_thread (u ''c9'')
      attachment_world) (u ''c9'')
   \<noteq> card_desc (updateCardWithAllMessages clock_east ok_pass example_thread (u ''c9'')
      attachment_world) (u ''c9'')"
  by (simp add: updateCardWithAllMessages_def Let_def attachment_world_def new_world_def
      example_thread_def ok_pass_def build_description_def clock_west_def clock_east_def
      glyph_speech_def glyph_memo_def glyph_bullet_def u_def)

text \<open>How one message is rendered: the spoiler markup is rewritten, the rest is kept.\<close>

lemma replicate_six: "replicate 6 (x::nat) = [x, x, x, x, x, x]"
  by (simp add: numeral_eq_Suc)

lemma formatMessageForCard_example:
  "formatMessageForCard example_platform spoiler_message True
     = [10] @ glyph_creator @ u '' **THREAD CREATOR** **bob** '' @ glyph_bullet @ u '' *9*''
       @ [10] @ u ''**'' @ glyph_memo @ u '' ORIGINAL THREAD CONTENT:**'' @ [10]
       @ u ''a [SPOILER: secret] b'' @ [10, 10] @ u ''---'' @ [10]"
  by (simp add: formatMessageForCard_def isJustMediaUrl_def trim_def is_space_def
      ext_regex_def ext_here_def image_exts_def video_exts_def audio_exts_def
      str_includes_def starts_with_def tenorShare_def strip_prefix_def opt_prefix_def
      ascii_lower_def formatDiscordMarkdown_def is_line_terminator_def processEmbeds_def
      processAttachments_def example_platform_def spoiler_message_def replicate_six
      Let_def js_eval)

end
